theory Spec2Isabelle
  imports Main
begin

section \<open>JavaScript values read by the program\<close>

text \<open>
  The oracle's answer is whatever \<^verbatim>\<open>response.json()\<close> yields: any JSON value. The program
  reads it with property accesses and truthiness tests only, so the value is kept as a
  JSON tree. A number is kept as an integer: the program only tests numbers for
  truthiness, and a fraction behaves there as any non-zero integer does. An object is the
  list of its members in the order of the text; a repeated key takes its last value, as
  \<^verbatim>\<open>JSON.parse\<close> does.
\<close>

datatype json =
    JNull
  | JBool bool
  | JNum int
  | JStr string
  | JArr "json list"
  | JObj "(string \<times> json) list"

text \<open>
  What ends a run before its handlers have run to their end: \<^verbatim>\<open>process.exit(n)\<close>, a
  \<^verbatim>\<open>TypeError\<close> that nothing catches (reading a property of \<^verbatim>\<open>undefined\<close> or
  \<^verbatim>\<open>null\<close>, calling a method the value does not have), or the \<^verbatim>\<open>'error'\<close> event of a
  child that has no listener for it, which Node throws.
\<close>

datatype abort = ProcessExit nat | TypeError | ChildError

text \<open>
  \<open>own_prop v k\<close> is \<^verbatim>\<open>v.k\<close> for a value that is not \<^verbatim>\<open>null\<close>, with \<open>None\<close> for
  \<^verbatim>\<open>undefined\<close>. It is used for the names the program reads (\<^verbatim>\<open>results\<close>,
  \<^verbatim>\<open>vulns\<close>, \<^verbatim>\<open>database_specific\<close>, \<^verbatim>\<open>severity\<close>, \<^verbatim>\<open>summary\<close>, \<^verbatim>\<open>id\<close>): none of them
  is a property of an array, a string, a number or a boolean.
\<close>

fun own_prop :: "json \<Rightarrow> string \<Rightarrow> json option" where
  "own_prop (JObj kvs) k = map_of (rev kvs) k"
| "own_prop JNull k = None"
| "own_prop (JBool b) k = None"
| "own_prop (JNum n) k = None"
| "own_prop (JStr s) k = None"
| "own_prop (JArr vs) k = None"

definition get_prop :: "json \<Rightarrow> string \<Rightarrow> abort + json option" where
  "get_prop v k = (if v = JNull then Inl TypeError else Inr (own_prop v k))"

text \<open>JavaScript's truthiness; \<open>None\<close> is \<^verbatim>\<open>undefined\<close>. Every array and object is truthy.\<close>

fun truthy :: "json option \<Rightarrow> bool" where
  "truthy None = False"
| "truthy (Some JNull) = False"
| "truthy (Some (JBool b)) = b"
| "truthy (Some (JNum n)) = (n \<noteq> 0)"
| "truthy (Some (JStr s)) = (s \<noteq> [])"
| "truthy (Some (JArr vs)) = True"
| "truthy (Some (JObj kvs)) = True"

text \<open>\<^verbatim>\<open>a || d\<close> where \<open>d\<close> is a defined value.\<close>

definition or_else :: "json option \<Rightarrow> json \<Rightarrow> json" where
  "or_else a d = (case a of None \<Rightarrow> d | Some v \<Rightarrow> if truthy (Some v) then v else d)"

text \<open>\<^verbatim>\<open>Array.prototype.join\<close> on strings.\<close>

fun join :: "string \<Rightarrow> string list \<Rightarrow> string" where
  "join sep [] = []"
| "join sep [x] = x"
| "join sep (x # y # ys) = x @ sep @ join sep (y # ys)"

text \<open>
  \<^verbatim>\<open>s.replace(c, '')\<close> with a one-character string pattern: the first occurrence of
  \<open>c\<close> is removed, wherever it stands, and later ones stay.
\<close>

fun replace_first :: "char \<Rightarrow> string \<Rightarrow> string" where
  "replace_first c [] = []"
| "replace_first c (x # xs) = (if x = c then xs else x # replace_first c xs)"

section \<open>Data model\<close>

text \<open>
  A candidate \<^verbatim>\<open>{ name, version }\<close>. Both fields are strings: the keys and values of a
  manifest's dependency groups, or the \<^verbatim>\<open>name\<close> and \<^verbatim>\<open>version\<close> of one registry answer.
\<close>

record PackageRef =
  name :: string
  version :: string

text \<open>
  \<^verbatim>\<open>package.json\<close> as far as the program reads it: the two dependency groups, each absent
  or an object of strings. \<open>None\<close> for the whole file stands for every way the
  \<^verbatim>\<open>try\<close> block of \<^verbatim>\<open>extractPkgNames\<close> can throw: the file is missing, unreadable or not
  JSON.
\<close>

record package_json =
  dependencies :: "(string \<times> string) list option"
  devDependencies :: "(string \<times> string) list option"

text \<open>One entry of the batch sent to the oracle:
  \<^verbatim>\<open>{ version, package: { name, ecosystem } }\<close>.\<close>

datatype query = Query (q_version: string) (q_name: string) (q_ecosystem: string)

text \<open>
  What \<^verbatim>\<open>fetch\<close> and \<^verbatim>\<open>response.json()\<close> give: a rejected call, or a status with the
  parsed body (\<open>None\<close> when the body is not JSON, so that \<^verbatim>\<open>response.json()\<close> rejects).
\<close>

datatype fetch_outcome = NetworkFailure | Response nat "json option"

datatype prompt = ScanPrompt | InstallPrompt

datatype badge = BgRedWhiteBold | Red | Yellow | Blue | White

text \<open>The texts the program prints, one constructor per message of the source.\<close>

datatype message =
    Preparing
  | PreparingPackageList
  | ReadingPackageJson
  | FetchingVersions nat
  | FetchingLatestVersions nat
  | NoPackagesFound
  | PreparedList nat
  | PackageListPrepared
  | CheckingVulnerabilities
  | ApiFailure
  | FoundVulnerabilities nat
  | PackageHeader string
  | VulnLine badge json json
  | VulnId "json option"
  | IssueCount string json
  | Aborting
  | AbortingInstallation
  | NoKnownVulnerabilities
  | ScanComplete
  | HandingOver
  | InstalledSuccessfully
  | PackagesLine "string list"
  | InstallationFailed
  | AnErrorOccured
  | CouldNotFind string
  | Uninstalling nat
  | Uninstalled "string list"
  | UninstallFailed

text \<open>What a run does to the outside, in order.\<close>

datatype event =
    SpinnerStart message
  | SpinnerText message
  | SpinnerSucceed message
  | SpinnerFail message
  | SpinnerWarn message
  | ConsoleLog message
  | ConsoleError
  | Exec string
  | Fetch "query list"
  | Select prompt
  | Spawn string "string list"

text \<open>
  What becomes of the \<^verbatim>\<open>npm install\<close> child. Either it is started and closes with a code
  (\<open>None\<close> when a signal ended it), or it cannot be started: then the child emits
  \<^verbatim>\<open>'error'\<close> and after it \<^verbatim>\<open>'close'\<close> with the negative error number of the failed
  spawn as its code, and nothing arrives on its error stream.
\<close>

datatype child_outcome = Closed "int option" | SpawnError int

text \<open>
  Everything outside the program that one run meets: the manifest on disk, the registry's
  answer to each \<^verbatim>\<open>npm view\<close> (\<open>None\<close> when the command or the parse fails), the
  outcome of the one oracle request, the value the operator's \<^verbatim>\<open>select\<close> returns,
  whether \<^verbatim>\<open>npm uninstall\<close> succeeds, what becomes of the \<^verbatim>\<open>npm install\<close> child, and
  the package name the close handler's pattern \<^verbatim>\<open>'(.+?)'\s+is not in this registry\<close>
  finds in the error text captured from a started child.
\<close>

record world =
  manifest :: "package_json option"
  registry :: "string \<Rightarrow> PackageRef option"
  network :: fetch_outcome
  answer :: string
  uninstall_ok :: bool
  child :: child_outcome
  not_found :: "string option"

section \<open>Helper functions of the source\<close>

text \<open>
  Assigning a property keeps the position of an existing key and appends a new one; the
  spread \<^verbatim>\<open>{ ...a, ...b }\<close> assigns the members of \<open>a\<close>, then those of \<open>b\<close>.
\<close>

fun set_prop :: "string \<Rightarrow> 'v \<Rightarrow> (string \<times> 'v) list \<Rightarrow> (string \<times> 'v) list" where
  "set_prop k v [] = [(k, v)]"
| "set_prop k v ((k', v') # ps) =
     (if k' = k then (k, v) # ps else (k', v') # set_prop k v ps)"

definition spread :: "(string \<times> 'v) list \<Rightarrow> (string \<times> 'v) list option \<Rightarrow> (string \<times> 'v) list" where
  "spread obj src =
     (case src of None \<Rightarrow> obj | Some ps \<Rightarrow> foldl (\<lambda>acc (k, v). set_prop k v acc) obj ps)"

text \<open>
  \<^verbatim>\<open>Object.entries\<close> lists the keys that are array indices first, in ascending numeric
  order, and the other keys after them in the order of their assignment. An array index is
  the decimal numeral, without a leading zero, of a number below \<open>2\<^sup>3\<^sup>2 - 1\<close>.
\<close>

definition index_value :: "string \<Rightarrow> nat" where
  "index_value k = foldl (\<lambda>n c. 10 * n + (of_char c - 48)) 0 k"

definition is_index :: "string \<Rightarrow> bool" where
  "is_index k =
     (k \<noteq> [] \<and> list_all (\<lambda>c. c \<in> set ''0123456789'') k
      \<and> (k = ''0'' \<or> hd k \<noteq> CHR ''0'') \<and> index_value k < 4294967295)"

definition Object_entries :: "(string \<times> 'v) list \<Rightarrow> (string \<times> 'v) list" where
  "Object_entries obj =
     sort_key (\<lambda>(k, v). index_value k) (filter (\<lambda>(k, v). is_index k) obj)
     @ filter (\<lambda>(k, v). \<not> is_index k) obj"

definition extractPkgNames :: "package_json option \<Rightarrow> PackageRef list" where
  "extractPkgNames file =
     (case file of
        None \<Rightarrow> []
      | Some json \<Rightarrow>
          (let deps = spread (spread [] (dependencies json)) (devDependencies json)
           in map (\<lambda>(n, v). \<lparr>name = n, version = v\<rparr>) (Object_entries deps)))"

definition fetchPackageVersions ::
  "(string \<Rightarrow> PackageRef option) \<Rightarrow> string list \<Rightarrow> event list \<times> PackageRef list" where
  "fetchPackageVersions reg pkgNames =
     (let results = map reg pkgNames
      in (map (\<lambda>rawArg. Exec (''npm view '' @ rawArg @ '' name version --json'')) pkgNames,
          concat (map (\<lambda>item. case item of None \<Rightarrow> [] | Some p \<Rightarrow> [p]) results)))"

definition response_ok :: "nat \<Rightarrow> bool" where
  "response_ok status = (200 \<le> status \<and> status \<le> 299)"

definition vulnsCheck :: "PackageRef list \<Rightarrow> fetch_outcome \<Rightarrow> event list \<times> json" where
  "vulnsCheck pkgList net =
     (let queries = map (\<lambda>p. Query (replace_first CHR ''~'' (replace_first CHR ''^'' (version p))) (name p) ''npm'') pkgList
      in ([Fetch queries],
          case net of
            NetworkFailure \<Rightarrow> JNull
          | Response status body \<Rightarrow>
              if \<not> response_ok status then JNull
              else (case body of None \<Rightarrow> JNull | Some data \<Rightarrow> data)))"

definition uninstallPackages :: "string list \<Rightarrow> bool \<Rightarrow> event list" where
  "uninstallPackages pkgNames ok =
     [SpinnerStart (Uninstalling (length pkgNames)),
      Exec (''npm uninstall '' @ join '' '' pkgNames)]
     @ (if ok then [SpinnerSucceed (Uninstalled pkgNames)]
        else [SpinnerFail UninstallFailed, ConsoleError])"

section \<open>The report and decision logic\<close>

text \<open>
  One element of \<^verbatim>\<open>foundVulns\<close>: the oracle's result with the candidate of the same
  index attached. Of the result's own members only \<^verbatim>\<open>vulns\<close> is read afterwards.
  \<^verbatim>\<open>packagesToCheck[i]\<close> is \<^verbatim>\<open>undefined\<close> past the end of the candidate list.
\<close>

record entry =
  vulns :: "json option"
  originalPkg :: "PackageRef option"

definition attach :: "PackageRef list \<Rightarrow> nat \<times> json \<Rightarrow> entry" where
  "attach packagesToCheck = (\<lambda>(i, r).
     \<lparr>vulns = own_prop r ''vulns'',
      originalPkg = (if i < length packagesToCheck then Some (packagesToCheck ! i) else None)\<rparr>)"

definition foundVulns :: "json list \<Rightarrow> PackageRef list \<Rightarrow> entry list" where
  "foundVulns results packagesToCheck =
     filter (\<lambda>r. truthy (vulns r)) (map (attach packagesToCheck) (enumerate 0 results))"

text \<open>\<^verbatim>\<open>xs.forEach(f)\<close> where \<open>f\<close> may throw: the events so far are kept.\<close>

fun forEach :: "('a \<Rightarrow> event list \<times> abort option) \<Rightarrow> 'a list \<Rightarrow> event list \<times> abort option" where
  "forEach f [] = ([], None)"
| "forEach f (x # xs) =
     (case f x of
        (evs, Some e) \<Rightarrow> (evs, Some e)
      | (evs, None) \<Rightarrow> (case forEach f xs of (evs', r) \<Rightarrow> (evs @ evs', r)))"

definition severityColor :: "json \<Rightarrow> badge" where
  "severityColor severity =
     (if severity = JStr ''CRITICAL'' then BgRedWhiteBold
      else if severity = JStr ''HIGH'' then Red
      else if severity = JStr ''MODERATE'' then Yellow
      else if severity = JStr ''LOW'' then Blue
      else White)"

text \<open>The body of the inner \<^verbatim>\<open>forEach\<close>: two lines per vulnerability record.\<close>

definition render_vuln :: "json \<Rightarrow> event list \<times> abort option" where
  "render_vuln vuln =
     (case get_prop vuln ''database_specific'' of
        Inl e \<Rightarrow> ([], Some e)
      | Inr ds \<Rightarrow>
          (let severity =
                 or_else (case ds of None \<Rightarrow> None | Some JNull \<Rightarrow> None
                          | Some d \<Rightarrow> own_prop d ''severity'')
                         (JStr ''UNKNOWN'')
           in ([ConsoleLog (VulnLine (severityColor severity) severity
                              (or_else (own_prop vuln ''summary'') (JStr ''No summary available''))),
                ConsoleLog (VulnId (own_prop vuln ''id''))], None)))"

text \<open>The body of the outer \<^verbatim>\<open>forEach\<close>: the package line, then the records.\<close>

definition render_entry :: "entry \<Rightarrow> event list \<times> abort option" where
  "render_entry v =
     (case originalPkg v of
        None \<Rightarrow> ([], Some TypeError)
      | Some p \<Rightarrow>
          (case vulns v of
             Some (JArr vs) \<Rightarrow>
               (case forEach render_vuln vs of
                  (evs, r) \<Rightarrow> (ConsoleLog (PackageHeader (name p)) # evs, r))
           | _ \<Rightarrow> ([ConsoleLog (PackageHeader (name p))], Some TypeError)))"

text \<open>\<^verbatim>\<open>foundVulns.map(v => v.originalPkg.name)\<close>.\<close>

fun pkgsToRemove :: "entry list \<Rightarrow> abort + string list" where
  "pkgsToRemove [] = Inr []"
| "pkgsToRemove (v # vs) =
     (case originalPkg v of
        None \<Rightarrow> Inl TypeError
      | Some p \<Rightarrow> (case pkgsToRemove vs of Inl e \<Rightarrow> Inl e | Inr ns \<Rightarrow> Inr (name p # ns)))"

text \<open>
  \<^verbatim>\<open>processVulnerabilityReport(vulnResults, packagesToCheck, spinner, isScan)\<close>. The
  result is the events and either the returned boolean or what ended the run.
  \<open>choice\<close> is the value \<^verbatim>\<open>select\<close> returns and \<open>ok\<close> whether the uninstall command
  succeeds.
\<close>

definition processVulnerabilityReport ::
  "json \<Rightarrow> PackageRef list \<Rightarrow> bool \<Rightarrow> string \<Rightarrow> bool \<Rightarrow> event list \<times> (abort + bool)" where
  "processVulnerabilityReport vulnResults packagesToCheck isScan choice ok =
     (if \<not> truthy (Some vulnResults) \<or> \<not> truthy (own_prop vulnResults ''results'')
      then ([SpinnerFail ApiFailure], Inr False)
      else
        (case own_prop vulnResults ''results'' of
           Some (JArr results) \<Rightarrow>
             (let found = foundVulns results packagesToCheck in
              if length found > 0 then
                (case forEach render_entry found of
                   (evs, Some e) \<Rightarrow> (SpinnerWarn (FoundVulnerabilities (length found)) # evs, Inl e)
                 | (evs, None) \<Rightarrow>
                     (let shown = SpinnerWarn (FoundVulnerabilities (length found)) # evs in
                      if isScan then
                        (if choice = ''uninstall'' then
                           (case pkgsToRemove found of
                              Inl e \<Rightarrow> (shown @ [Select ScanPrompt], Inl e)
                            | Inr names \<Rightarrow>
                                (shown @ [Select ScanPrompt] @ uninstallPackages names ok,
                                 Inl (ProcessExit 0)))
                         else (shown @ [Select ScanPrompt], Inr True))
                      else
                        (if choice = ''abort'' then
                           (shown @ [Select InstallPrompt, ConsoleLog Aborting],
                            Inl (ProcessExit 1))
                         else (shown @ [Select InstallPrompt], Inr True))))
              else ([SpinnerSucceed NoKnownVulnerabilities], Inr True))
         | _ \<Rightarrow> ([], Inl TypeError)))"

section \<open>The install command\<close>

text \<open>The handler of the child's \<^verbatim>\<open>close\<close> event. It only prints.\<close>

definition on_close :: "bool \<Rightarrow> PackageRef list \<Rightarrow> int option \<Rightarrow> string option \<Rightarrow> event list" where
  "on_close isDefaultInstall packagesToCheck code notFoundMatch =
     (if code = Some 0 then
        ConsoleLog InstalledSuccessfully
        # (if \<not> isDefaultInstall then [ConsoleLog (PackagesLine (map name packagesToCheck))]
           else [])
      else
        ConsoleLog InstallationFailed
        # (case notFoundMatch of None \<Rightarrow> [] | Some n \<Rightarrow> [ConsoleLog (CouldNotFind n)]))"

text \<open>
  The action of \<^verbatim>\<open>install [pkgs...]\<close> with the options \<^verbatim>\<open>--scan\<close> (the file with the
  prompts). The result is the events of the run and what ended it, \<open>None\<close> when the
  handler and the child's close handler ran to their end.
\<close>

definition install_action :: "string list \<Rightarrow> bool \<Rightarrow> world \<Rightarrow> event list \<times> abort option" where
  "install_action pkgs scan w =
     (let isDefaultInstall = (pkgs = []);
          (prep, packagesToCheck) =
            (if scan \<or> isDefaultInstall
             then ([SpinnerText ReadingPackageJson], extractPkgNames (manifest w))
             else (case fetchPackageVersions (registry w) pkgs of
                     (evs, ps) \<Rightarrow> (SpinnerText (FetchingVersions (length pkgs)) # evs, ps)))
      in
      if (scan \<or> isDefaultInstall) \<and> length packagesToCheck = 0
      then (SpinnerStart Preparing # prep @ [SpinnerFail NoPackagesFound], None)
      else
        (case vulnsCheck packagesToCheck (network w) of
           (sent, vulnResults) \<Rightarrow>
             (let before = SpinnerStart Preparing # prep
                     @ [SpinnerSucceed (PreparedList (length packagesToCheck)),
                        SpinnerStart CheckingVulnerabilities] @ sent
              in
              case processVulnerabilityReport vulnResults packagesToCheck scan
                     (answer w) (uninstall_ok w) of
                (evs, Inl e) \<Rightarrow> (before @ evs, Some e)
              | (evs, Inr b) \<Rightarrow>
                  if scan then (before @ evs @ [ConsoleLog ScanComplete], None)
                  else
                    (case child w of
                       Closed code \<Rightarrow>
                         (before @ evs
                            @ [ConsoleLog HandingOver, Spawn ''npm'' (''install'' # pkgs)]
                            @ on_close isDefaultInstall packagesToCheck code (not_found w),
                          None)
                     | SpawnError errno \<Rightarrow>
                         (before @ evs
                            @ [ConsoleLog HandingOver, Spawn ''npm'' (''install'' # pkgs)],
                          Some ChildError)))))"

text \<open>
  The action of \<^verbatim>\<open>install [pkgs...]\<close> in \<^verbatim>\<open>index.js\<close>: no options, no prompt; confirmed
  vulnerabilities end the run.
\<close>

definition render_count :: "entry \<Rightarrow> event list \<times> abort option" where
  "render_count v =
     (case originalPkg v of
        None \<Rightarrow> ([], Some TypeError)
      | Some p \<Rightarrow>
          (case vulns v of
             None \<Rightarrow> ([], Some TypeError)
           | Some JNull \<Rightarrow> ([], Some TypeError)
           | Some vs \<Rightarrow> ([ConsoleLog (IssueCount (name p) vs)], None)))"

text \<open>
  The listeners \<^verbatim>\<open>index.js\<close> puts on the child: the one for \<^verbatim>\<open>'error'\<close> prints a line,
  the one for \<^verbatim>\<open>'close'\<close> is the handler above.
\<close>

definition index_child :: "bool \<Rightarrow> PackageRef list \<Rightarrow> world \<Rightarrow> event list" where
  "index_child isDefaultInstall packagesToCheck w =
     (case child w of
        Closed code \<Rightarrow> on_close isDefaultInstall packagesToCheck code (not_found w)
      | SpawnError errno \<Rightarrow>
          ConsoleLog AnErrorOccured
          # on_close isDefaultInstall packagesToCheck (Some errno) None)"

definition index_install_action :: "string list \<Rightarrow> world \<Rightarrow> event list \<times> abort option" where
  "index_install_action pkgs w =
     (let isDefaultInstall = (pkgs = []);
          (prep, packagesToCheck) =
            (if isDefaultInstall
             then ([SpinnerText ReadingPackageJson], extractPkgNames (manifest w))
             else (case fetchPackageVersions (registry w) pkgs of
                     (evs, ps) \<Rightarrow> (SpinnerText (FetchingLatestVersions (length pkgs)) # evs, ps)))
      in
      case vulnsCheck packagesToCheck (network w) of
        (sent, vulnResults) \<Rightarrow>
          (let before = SpinnerStart PreparingPackageList # prep
                  @ [SpinnerSucceed PackageListPrepared,
                     SpinnerStart CheckingVulnerabilities] @ sent;
               install = [ConsoleLog HandingOver, Spawn ''npm'' (''install'' # pkgs)]
                  @ index_child isDefaultInstall packagesToCheck w
           in
           if truthy (Some vulnResults) \<and> truthy (own_prop vulnResults ''results'') then
             (case own_prop vulnResults ''results'' of
                Some (JArr results) \<Rightarrow>
                  (let found = foundVulns results packagesToCheck in
                   if length found > 0 then
                     (case forEach render_count found of
                        (evs, Some e) \<Rightarrow>
                          (before @ SpinnerWarn (FoundVulnerabilities (length found)) # evs, Some e)
                      | (evs, None) \<Rightarrow>
                          (before @ SpinnerWarn (FoundVulnerabilities (length found)) # evs
                             @ [ConsoleLog AbortingInstallation],
                           Some (ProcessExit 1)))
                   else
                     (before @ [SpinnerSucceed NoKnownVulnerabilities] @ install, None))
              | _ \<Rightarrow> (before, Some TypeError))
           else (before @ [SpinnerFail ApiFailure] @ install, None)))"

text \<open>
  The status the process ends with. A handler that returns leaves Node to end with status
  0 once the child has closed, since \<^verbatim>\<open>process.exitCode\<close> is never assigned. An exception
  that leaves the asynchronous handler is an unhandled rejection (the program calls
  \<^verbatim>\<open>program.parse\<close> and installs no handler), on which Node ends the process with status 1,
  as it does on the exception thrown for a child's \<^verbatim>\<open>'error'\<close> event without a listener.
\<close>

fun exit_code :: "abort option \<Rightarrow> nat" where
  "exit_code None = 0"
| "exit_code (Some (ProcessExit n)) = n"
| "exit_code (Some TypeError) = 1"
| "exit_code (Some ChildError) = 1"

definition is_spawn :: "event \<Rightarrow> bool" where
  "is_spawn e = (case e of Spawn cmd args \<Rightarrow> True | _ \<Rightarrow> False)"

definition is_select :: "event \<Rightarrow> bool" where
  "is_select e = (case e of Select p \<Rightarrow> True | _ \<Rightarrow> False)"

section \<open>Names for the stages of a run\<close>

text \<open>
  The handlers compute the candidate list, the oracle's answer and the report one after the
  other. The definitions below name these intermediate values, so that a statement about a
  whole run can speak of them; the lemmas \<open>install_action_early\<close>,
  \<open>install_mode_reached\<close>, \<open>scan_mode_reached\<close> and \<open>index_view\<close> relate them to the
  handlers.
\<close>

text \<open>The indices of the oracle's results that pass \<^verbatim>\<open>filter(r => r.vulns)\<close>.\<close>

definition flagged_positions :: "json list \<Rightarrow> nat list" where
  "flagged_positions results =
     filter (\<lambda>i. truthy (own_prop (results ! i) ''vulns'')) [0..<length results]"

text \<open>\<^verbatim>\<open>packagesToCheck\<close>: from the manifest for a scan or a default install, from the
  registry otherwise.\<close>

definition candidates :: "string list \<Rightarrow> bool \<Rightarrow> world \<Rightarrow> PackageRef list" where
  "candidates pkgs scan w =
     (if scan \<or> pkgs = [] then extractPkgNames (manifest w)
      else snd (fetchPackageVersions (registry w) pkgs))"

text \<open>\<^verbatim>\<open>vulnResults\<close>, the value \<^verbatim>\<open>vulnsCheck\<close> returns for the candidates.\<close>

definition oracle_answer :: "string list \<Rightarrow> bool \<Rightarrow> world \<Rightarrow> json" where
  "oracle_answer pkgs scan w = snd (vulnsCheck (candidates pkgs scan w) (network w))"

text \<open>The call of \<^verbatim>\<open>processVulnerabilityReport\<close> the handler makes.\<close>

definition report :: "string list \<Rightarrow> bool \<Rightarrow> world \<Rightarrow> event list \<times> (abort + bool)" where
  "report pkgs scan w =
     processVulnerabilityReport (oracle_answer pkgs scan w) (candidates pkgs scan w) scan
       (answer w) (uninstall_ok w)"

text \<open>The events of a run up to and including the oracle request.\<close>

definition prelude :: "string list \<Rightarrow> bool \<Rightarrow> world \<Rightarrow> event list" where
  "prelude pkgs scan w =
     SpinnerStart Preparing
     # (if scan \<or> pkgs = [] then [SpinnerText ReadingPackageJson]
        else SpinnerText (FetchingVersions (length pkgs)) # fst (fetchPackageVersions (registry w) pkgs))
     @ [SpinnerSucceed (PreparedList (length (candidates pkgs scan w))),
        SpinnerStart CheckingVulnerabilities]
     @ fst (vulnsCheck (candidates pkgs scan w) (network w))"

text \<open>The warning and the rendered entries of a report with flagged packages.\<close>

definition shown :: "json list \<Rightarrow> PackageRef list \<Rightarrow> event list" where
  "shown R C =
     SpinnerWarn (FoundVulnerabilities (length (foundVulns R C)))
     # fst (forEach render_entry (foundVulns R C))"

text \<open>The same stages for the handler of \<^verbatim>\<open>index.js\<close>.\<close>

definition index_prelude :: "string list \<Rightarrow> world \<Rightarrow> event list" where
  "index_prelude pkgs w =
     SpinnerStart PreparingPackageList
     # (if pkgs = [] then [SpinnerText ReadingPackageJson]
        else SpinnerText (FetchingLatestVersions (length pkgs))
             # fst (fetchPackageVersions (registry w) pkgs))
     @ [SpinnerSucceed PackageListPrepared, SpinnerStart CheckingVulnerabilities]
     @ fst (vulnsCheck (candidates pkgs False w) (network w))"

text \<open>
  The installation phase: the hand-over line, the spawn, and what the child's listeners do.
  The handler with the prompts has a \<^verbatim>\<open>'close'\<close> listener only, so a child that cannot be
  started ends the run; \<^verbatim>\<open>index.js\<close> also listens for \<^verbatim>\<open>'error'\<close>.
\<close>

definition handover :: "string list \<Rightarrow> world \<Rightarrow> event list \<times> abort option" where
  "handover pkgs w =
     (case child w of
        Closed code \<Rightarrow>
          ([ConsoleLog HandingOver, Spawn ''npm'' (''install'' # pkgs)]
             @ on_close (pkgs = []) (candidates pkgs False w) code (not_found w), None)
      | SpawnError errno \<Rightarrow>
          ([ConsoleLog HandingOver, Spawn ''npm'' (''install'' # pkgs)], Some ChildError))"

definition index_handover :: "string list \<Rightarrow> world \<Rightarrow> event list" where
  "index_handover pkgs w =
     [ConsoleLog HandingOver, Spawn ''npm'' (''install'' # pkgs)]
     @ index_child (pkgs = []) (candidates pkgs False w) w"

text \<open>The array \<^verbatim>\<open>vulnResults.results\<close> the report iterates over (empty when there is none).\<close>

definition results_of :: "json \<Rightarrow> json list" where
  "results_of vr = (case own_prop vr ''results'' of Some (JArr R) \<Rightarrow> R | _ \<Rightarrow> [])"

text \<open>The names of the candidates at the flagged positions, in the oracle's order.\<close>

definition flagged_names :: "json list \<Rightarrow> PackageRef list \<Rightarrow> string list" where
  "flagged_names R C = map (\<lambda>i. name (C ! i)) (flagged_positions R)"

text \<open>The events that run a command through \<^verbatim>\<open>exec\<close>.\<close>

definition is_exec :: "event \<Rightarrow> bool" where
  "is_exec e = (case e of Exec cmd \<Rightarrow> True | _ \<Rightarrow> False)"

text \<open>The version strings of the batch that \<^verbatim>\<open>vulnsCheck\<close> sends.\<close>

definition sent_versions :: "PackageRef list \<Rightarrow> fetch_outcome \<Rightarrow> string list" where
  "sent_versions pkgList net =
     concat (map (\<lambda>e. case e of Fetch qs \<Rightarrow> map q_version qs | _ \<Rightarrow> [])
       (fst (vulnsCheck pkgList net)))"

section \<open>Sample inputs\<close>

text \<open>
  A manifest that declares \<^verbatim>\<open>{"left-pad": "^1.3.0"}\<close>, an oracle answer with one
  \<^verbatim>\<open>HIGH\<close> record for it, and the worlds built from them.
\<close>

definition manifest_left_pad :: "package_json option" where
  "manifest_left_pad =
     Some \<lparr>dependencies = Some [(''left-pad'', ''^1.3.0'')], devDependencies = None\<rparr>"

definition high_vuln :: json where
  "high_vuln =
     JObj [(''id'', JStr ''GHSA-0000''), (''summary'', JStr ''Example advisory''),
           (''database_specific'', JObj [(''severity'', JStr ''HIGH'')])]"

definition flagged_body :: json where
  "flagged_body = JObj [(''results'', JArr [JObj [(''vulns'', JArr [high_vuln])]])]"

definition world_of :: "fetch_outcome \<Rightarrow> string \<Rightarrow> bool \<Rightarrow> child_outcome \<Rightarrow> world" where
  "world_of net choice ok code =
     \<lparr>manifest = manifest_left_pad, registry = (\<lambda>rawArg. None), network = net,
      answer = choice, uninstall_ok = ok, child = code, not_found = None\<rparr>"

text \<open>An oracle answer with one result that has no \<^verbatim>\<open>vulns\<close>.\<close>

definition clean_body :: json where
  "clean_body = JObj [(''results'', JArr [JObj []])]"

text \<open>A manifest without dependencies, and a world with it whose oracle answers an empty batch.\<close>

definition empty_manifest :: "package_json option" where
  "empty_manifest = Some \<lparr>dependencies = Some [], devDependencies = None\<rparr>"

definition world_empty :: world where
  "world_empty =
     \<lparr>manifest = empty_manifest, registry = (\<lambda>rawArg. None),
      network = Response 200 (Some (JObj [(''results'', JArr [])])),
      answer = ''abort'', uninstall_ok = True, child = Closed (Some 0), not_found = None\<rparr>"

section \<open>Lemmas on the stages\<close>

lemma forEach_events:
  "e \<in> set (fst (forEach f xs)) \<Longrightarrow> \<exists>x\<in>set xs. e \<in> set (fst (f x))"
  by (induction xs) (auto split: prod.splits option.splits)

lemma forEach_ok:
  "snd (forEach f xs) = None \<Longrightarrow> x \<in> set xs \<Longrightarrow> snd (f x) = None"
  by (induction xs) (auto split: prod.splits option.splits)

lemma render_vuln_events:
  "e \<in> set (fst (render_vuln v)) \<Longrightarrow> \<exists>m. e = ConsoleLog m"
  by (auto simp: render_vuln_def Let_def split: sum.splits)

lemma render_entry_events:
  assumes that: "e \<in> set (fst (render_entry v))"
  shows "\<exists>m. e = ConsoleLog m"
proof (cases "originalPkg v")
  case None
  then show ?thesis using that by (simp add: render_entry_def)
next
  case (Some p)
  show ?thesis
  proof (cases "\<exists>vs. vulns v = Some (JArr vs)")
    case True
    then obtain vs where vs: "vulns v = Some (JArr vs)" by blast
    from that Some vs have "e = ConsoleLog (PackageHeader (name p)) \<or> e \<in> set (fst (forEach render_vuln vs))"
      by (auto simp: render_entry_def split: prod.splits)
    then show ?thesis
      using forEach_events[of e render_vuln vs] render_vuln_events by blast
  next
    case False
    with that Some show ?thesis
      by (auto simp: render_entry_def split: option.splits json.splits)
  qed
qed

lemma render_count_events:
  "e \<in> set (fst (render_count v)) \<Longrightarrow> \<exists>m. e = ConsoleLog m"
  by (auto simp: render_count_def split: option.splits json.splits)

lemma render_entry_ok:
  "snd (render_entry v) = None \<Longrightarrow> \<exists>p. originalPkg v = Some p"
  by (auto simp: render_entry_def split: option.splits)

lemma pkgsToRemove_ok:
  "\<forall>v\<in>set vs. \<exists>p. originalPkg v = Some p \<Longrightarrow>
   pkgsToRemove vs = Inr (map (\<lambda>v. name (the (originalPkg v))) vs)"
  by (induction vs) auto

lemma enumerate_nth: "enumerate 0 xs = map (\<lambda>i. (i, xs ! i)) [0..<length xs]"
  by (simp add: enumerate_eq_zip zip_eq_conv comp_def map_nth)

lemma foundVulns_positions:
  "foundVulns R C = map (\<lambda>i. attach C (i, R ! i)) (flagged_positions R)"
  by (simp add: foundVulns_def flagged_positions_def enumerate_nth filter_map comp_def attach_def)

lemma on_close_events:
  "e \<in> set (on_close d C code nf) \<Longrightarrow> \<exists>m. e = ConsoleLog m"
  by (auto simp: on_close_def split: if_splits option.splits)

lemma uninstall_events:
  "e \<in> set (uninstallPackages ns ok) \<Longrightarrow> \<not> is_spawn e \<and> \<not> is_select e"
  by (auto simp: uninstallPackages_def is_spawn_def is_select_def split: if_splits)

lemma install_action_early:
  "(scan \<or> pkgs = []) \<Longrightarrow> extractPkgNames (manifest w) = [] \<Longrightarrow>
   install_action pkgs scan w =
     ([SpinnerStart Preparing, SpinnerText ReadingPackageJson, SpinnerFail NoPackagesFound], None)"
  by (simp add: install_action_def)

lemma install_action_reached:
  "\<not> ((scan \<or> pkgs = []) \<and> extractPkgNames (manifest w) = []) \<Longrightarrow>
   install_action pkgs scan w =
     (case report pkgs scan w of
        (evs, Inl e) \<Rightarrow> (prelude pkgs scan w @ evs, Some e)
      | (evs, Inr b) \<Rightarrow>
          if scan then (prelude pkgs scan w @ evs @ [ConsoleLog ScanComplete], None)
          else (prelude pkgs scan w @ evs @ fst (handover pkgs w), snd (handover pkgs w)))"
  by (auto simp: install_action_def report_def prelude_def candidates_def oracle_answer_def
      handover_def Let_def split: prod.splits sum.splits child_outcome.splits)

lemma prelude_events:
  "e \<in> set (prelude pkgs scan w) \<Longrightarrow> \<not> is_spawn e \<and> \<not> is_select e"
  by (auto simp: prelude_def is_spawn_def is_select_def fetchPackageVersions_def vulnsCheck_def
      Let_def split: if_splits)

lemma own_prop_truthy: "own_prop v k = Some x \<Longrightarrow> truthy (Some v)"
  by (cases v) auto

lemma forEach_abort:
  "snd (forEach f xs) = Some e \<Longrightarrow> \<exists>x\<in>set xs. snd (f x) = Some e"
  by (induction xs) (auto split: prod.splits option.splits)

lemma render_vuln_abort: "snd (render_vuln v) = Some e \<Longrightarrow> e = TypeError"
  by (auto simp: render_vuln_def get_prop_def Let_def split: if_splits)

lemma render_entry_abort:
  assumes "snd (render_entry v) = Some e"
  shows "e = TypeError"
proof (cases "\<exists>p vs. originalPkg v = Some p \<and> vulns v = Some (JArr vs)")
  case True
  then obtain p vs where "originalPkg v = Some p" "vulns v = Some (JArr vs)" by blast
  with assms have "snd (forEach render_vuln vs) = Some e"
    by (auto simp: render_entry_def split: prod.splits)
  then show ?thesis
    using forEach_abort[of render_vuln vs e] render_vuln_abort by blast
next
  case False
  with assms show ?thesis
    by (auto simp: render_entry_def split: option.splits json.splits)
qed

lemma render_count_abort: "snd (render_count v) = Some e \<Longrightarrow> e = TypeError"
  by (auto simp: render_count_def split: option.splits json.splits)

lemma rendered_events:
  "e \<in> set (fst (forEach render_entry vs)) \<Longrightarrow> \<exists>m. e = ConsoleLog m"
  using forEach_events[of e render_entry vs] render_entry_events by blast

lemma counted_events:
  "e \<in> set (fst (forEach render_count vs)) \<Longrightarrow> \<exists>m. e = ConsoleLog m"
  using forEach_events[of e render_count vs] render_count_events by blast

lemma shown_events:
  "e \<in> set (shown R C) \<Longrightarrow> \<not> is_spawn e \<and> \<not> is_select e"
  using rendered_events[of e "foundVulns R C"]
  by (auto simp: shown_def is_spawn_def is_select_def)

lemma pvr_failed:
  "\<not> truthy (Some vr) \<or> \<not> truthy (own_prop vr ''results'') \<Longrightarrow>
   processVulnerabilityReport vr C s ch ok = ([SpinnerFail ApiFailure], Inr False)"
  by (simp add: processVulnerabilityReport_def)

lemma pvr_clean:
  "own_prop vr ''results'' = Some (JArr R) \<Longrightarrow> foundVulns R C = [] \<Longrightarrow>
   processVulnerabilityReport vr C s ch ok = ([SpinnerSucceed NoKnownVulnerabilities], Inr True)"
  using own_prop_truthy[of vr "''results''" "JArr R"]
  by (simp add: processVulnerabilityReport_def)

lemma pvr_crash:
  "own_prop vr ''results'' = Some (JArr R) \<Longrightarrow> foundVulns R C \<noteq> [] \<Longrightarrow>
   snd (forEach render_entry (foundVulns R C)) = Some e \<Longrightarrow>
   processVulnerabilityReport vr C s ch ok = (shown R C, Inl e)"
  using own_prop_truthy[of vr "''results''" "JArr R"]
  by (auto simp: processVulnerabilityReport_def shown_def Let_def split: prod.splits option.splits)

lemma rendered_names:
  assumes "snd (forEach render_entry vs) = None"
  shows "pkgsToRemove vs = Inr (map (\<lambda>v. name (the (originalPkg v))) vs)"
proof (rule pkgsToRemove_ok, rule ballI)
  fix v assume "v \<in> set vs"
  with assms have "snd (render_entry v) = None" by (rule forEach_ok)
  then show "\<exists>p. originalPkg v = Some p" by (rule render_entry_ok)
qed

lemma pvr_prompted:
  assumes "own_prop vr ''results'' = Some (JArr R)" and "foundVulns R C \<noteq> []"
    and "snd (forEach render_entry (foundVulns R C)) = None"
  shows "processVulnerabilityReport vr C s ch ok =
     (if s then
        (if ch = ''uninstall'' then
           (shown R C @ [Select ScanPrompt]
              @ uninstallPackages (map (\<lambda>v. name (the (originalPkg v))) (foundVulns R C)) ok,
            Inl (ProcessExit 0))
         else (shown R C @ [Select ScanPrompt], Inr True))
      else
        (if ch = ''abort'' then
           (shown R C @ [Select InstallPrompt, ConsoleLog Aborting], Inl (ProcessExit 1))
         else (shown R C @ [Select InstallPrompt], Inr True)))"
  using assms own_prop_truthy[of vr "''results''" "JArr R"] rendered_names[OF assms(3)]
  by (auto simp: processVulnerabilityReport_def shown_def Let_def split: prod.splits option.splits)

lemma pvr_not_array:
  "truthy (Some vr) \<Longrightarrow> truthy (own_prop vr ''results'') \<Longrightarrow>
   \<nexists>R. own_prop vr ''results'' = Some (JArr R) \<Longrightarrow>
   processVulnerabilityReport vr C s ch ok = ([], Inl TypeError)"
  by (auto simp: processVulnerabilityReport_def split: option.splits json.splits)

lemma is_spawn_simps [simp]:
  "is_spawn (Spawn c a)" "\<not> is_spawn (SpinnerStart m)" "\<not> is_spawn (SpinnerText m)"
  "\<not> is_spawn (SpinnerSucceed m)" "\<not> is_spawn (SpinnerFail m)" "\<not> is_spawn (SpinnerWarn m)"
  "\<not> is_spawn (ConsoleLog m)" "\<not> is_spawn ConsoleError" "\<not> is_spawn (Exec s)"
  "\<not> is_spawn (Fetch q)" "\<not> is_spawn (Select p)"
  by (simp_all add: is_spawn_def)

lemma is_select_simps [simp]:
  "is_select (Select p)" "\<not> is_select (SpinnerStart m)" "\<not> is_select (SpinnerText m)"
  "\<not> is_select (SpinnerSucceed m)" "\<not> is_select (SpinnerFail m)" "\<not> is_select (SpinnerWarn m)"
  "\<not> is_select (ConsoleLog m)" "\<not> is_select ConsoleError" "\<not> is_select (Exec s)"
  "\<not> is_select (Fetch q)" "\<not> is_select (Spawn c a)"
  by (simp_all add: is_select_def)

lemma index_prelude_events:
  "e \<in> set (index_prelude pkgs w) \<Longrightarrow> \<not> is_spawn e \<and> \<not> is_select e"
  by (auto simp: index_prelude_def is_spawn_def is_select_def fetchPackageVersions_def
      vulnsCheck_def Let_def split: if_splits)

lemma handover_events: "e \<in> set (fst (handover pkgs w)) \<Longrightarrow> \<not> is_select e"
  by (auto simp: handover_def is_select_def split: child_outcome.splits dest: on_close_events)

lemma handover_outcome:
  "snd (handover pkgs w) = (case child w of Closed code \<Rightarrow> None | SpawnError errno \<Rightarrow> Some ChildError)"
  by (simp add: handover_def split: child_outcome.splits)

lemma index_handover_events: "e \<in> set (index_handover pkgs w) \<Longrightarrow> \<not> is_select e"
  by (auto simp: index_handover_def index_child_def is_select_def split: child_outcome.splits
      dest: on_close_events)

lemma index_view:
  "index_install_action pkgs w =
     (if truthy (Some (oracle_answer pkgs False w))
         \<and> truthy (own_prop (oracle_answer pkgs False w) ''results'') then
        (case own_prop (oracle_answer pkgs False w) ''results'' of
           Some (JArr results) \<Rightarrow>
             (if length (foundVulns results (candidates pkgs False w)) > 0 then
                (case forEach render_count (foundVulns results (candidates pkgs False w)) of
                   (evs, Some e) \<Rightarrow>
                     (index_prelude pkgs w
                        @ SpinnerWarn (FoundVulnerabilities
                            (length (foundVulns results (candidates pkgs False w)))) # evs,
                      Some e)
                 | (evs, None) \<Rightarrow>
                     (index_prelude pkgs w
                        @ SpinnerWarn (FoundVulnerabilities
                            (length (foundVulns results (candidates pkgs False w)))) # evs
                        @ [ConsoleLog AbortingInstallation],
                      Some (ProcessExit 1)))
              else (index_prelude pkgs w @ [SpinnerSucceed NoKnownVulnerabilities]
                      @ index_handover pkgs w, None))
         | _ \<Rightarrow> (index_prelude pkgs w, Some TypeError))
      else (index_prelude pkgs w @ [SpinnerFail ApiFailure] @ index_handover pkgs w, None))"
  by (cases "pkgs = []")
     (auto simp: index_install_action_def index_prelude_def index_handover_def candidates_def
        oracle_answer_def Let_def case_prod_beta split: option.splits json.splits)

lemma index_failed:
  "\<not> truthy (Some (oracle_answer pkgs False w))
     \<or> \<not> truthy (own_prop (oracle_answer pkgs False w) ''results'') \<Longrightarrow>
   index_install_action pkgs w =
     (index_prelude pkgs w @ [SpinnerFail ApiFailure] @ index_handover pkgs w, None)"
  by (auto simp: index_view)

lemma index_clean:
  "own_prop (oracle_answer pkgs False w) ''results'' = Some (JArr R) \<Longrightarrow>
   foundVulns R (candidates pkgs False w) = [] \<Longrightarrow>
   index_install_action pkgs w =
     (index_prelude pkgs w @ [SpinnerSucceed NoKnownVulnerabilities] @ index_handover pkgs w, None)"
  using own_prop_truthy[of "oracle_answer pkgs False w" "''results''" "JArr R"]
  by (simp add: index_view)

lemma index_found:
  "own_prop (oracle_answer pkgs False w) ''results'' = Some (JArr R) \<Longrightarrow>
   foundVulns R (candidates pkgs False w) \<noteq> [] \<Longrightarrow>
   index_install_action pkgs w =
     (case forEach render_count (foundVulns R (candidates pkgs False w)) of
        (evs, Some e) \<Rightarrow>
          (index_prelude pkgs w
             @ SpinnerWarn (FoundVulnerabilities (length (foundVulns R (candidates pkgs False w)))) # evs,
           Some e)
      | (evs, None) \<Rightarrow>
          (index_prelude pkgs w
             @ SpinnerWarn (FoundVulnerabilities (length (foundVulns R (candidates pkgs False w)))) # evs
             @ [ConsoleLog AbortingInstallation],
           Some (ProcessExit 1)))"
  using own_prop_truthy[of "oracle_answer pkgs False w" "''results''" "JArr R"]
  by (simp add: index_view split: prod.splits option.splits)

lemma install_mode_reached:
  "pkgs \<noteq> [] \<or> extractPkgNames (manifest w) \<noteq> [] \<Longrightarrow>
   install_action pkgs False w =
     (case report pkgs False w of
        (evs, Inl e) \<Rightarrow> (prelude pkgs False w @ evs, Some e)
      | (evs, Inr b) \<Rightarrow>
          (prelude pkgs False w @ evs @ fst (handover pkgs w), snd (handover pkgs w)))"
  using install_action_reached[of False pkgs w]
  by (auto split: prod.splits sum.splits)

lemma scan_mode_reached:
  "extractPkgNames (manifest w) \<noteq> [] \<Longrightarrow>
   install_action pkgs True w =
     (case report pkgs True w of
        (evs, Inl e) \<Rightarrow> (prelude pkgs True w @ evs, Some e)
      | (evs, Inr b) \<Rightarrow> (prelude pkgs True w @ evs @ [ConsoleLog ScanComplete], None))"
  using install_action_reached[of True pkgs w]
  by (auto split: prod.splits sum.splits)

lemma report_events_no_spawn:
  "e \<in> set (fst (processVulnerabilityReport vr C s ch ok)) \<Longrightarrow> \<not> is_spawn e"
proof (cases "truthy (Some vr) \<and> truthy (own_prop vr ''results'')")
  case False
  assume "e \<in> set (fst (processVulnerabilityReport vr C s ch ok))"
  with False show ?thesis by (auto simp: pvr_failed is_spawn_def)
next
  case True
  assume e: "e \<in> set (fst (processVulnerabilityReport vr C s ch ok))"
  show ?thesis
  proof (cases "\<exists>R. own_prop vr ''results'' = Some (JArr R)")
    case False
    with True e show ?thesis by (simp add: pvr_not_array)
  next
    case True
    then obtain R where R: "own_prop vr ''results'' = Some (JArr R)" by blast
    show ?thesis
    proof (cases "foundVulns R C = []")
      case True
      with R e show ?thesis by (simp add: pvr_clean is_spawn_def)
    next
      case False
      show ?thesis
      proof (cases "snd (forEach render_entry (foundVulns R C))")
        case (Some a)
        with R False e show ?thesis by (simp add: pvr_crash shown_events)
      next
        case None
        with R False e show ?thesis
          using shown_events[of e R C] uninstall_events[of e]
          by (auto simp: pvr_prompted is_spawn_def split: if_splits)
      qed
    qed
  qed
qed

lemma world_of_simps [simp]:
  "manifest (world_of net choice ok code) = manifest_left_pad"
  "registry (world_of net choice ok code) = (\<lambda>rawArg. None)"
  "network (world_of net choice ok code) = net"
  "answer (world_of net choice ok code) = choice"
  "uninstall_ok (world_of net choice ok code) = ok"
  "child (world_of net choice ok code) = code"
  "not_found (world_of net choice ok code) = None"
  by (simp_all add: world_of_def)

lemma extract_left_pad [simp]:
  "extractPkgNames manifest_left_pad = [\<lparr>name = ''left-pad'', version = ''^1.3.0''\<rparr>]"
  by (simp add: extractPkgNames_def manifest_left_pad_def spread_def Object_entries_def
      is_index_def)

lemma candidates_left_pad [simp]:
  "candidates [] scan (world_of net choice ok code) = [\<lparr>name = ''left-pad'', version = ''^1.3.0''\<rparr>]"
  by (simp add: candidates_def)

lemma answer_flagged [simp]:
  "oracle_answer [] scan (world_of (Response 200 (Some flagged_body)) choice ok code) = flagged_body"
  by (simp add: oracle_answer_def vulnsCheck_def response_ok_def)

lemma results_flagged [simp]:
  "own_prop flagged_body ''results'' = Some (JArr [JObj [(''vulns'', JArr [high_vuln])]])"
  by (simp add: flagged_body_def)

lemma found_left_pad [simp]:
  "foundVulns [JObj [(''vulns'', JArr [high_vuln])]] [\<lparr>name = ''left-pad'', version = ''^1.3.0''\<rparr>]
   = [\<lparr>vulns = Some (JArr [high_vuln]),
        originalPkg = Some \<lparr>name = ''left-pad'', version = ''^1.3.0''\<rparr>\<rparr>]"
  by (simp add: foundVulns_def attach_def enumerate_eq_zip)

lemma render_high [simp]:
  "render_entry \<lparr>vulns = Some (JArr [high_vuln]),
        originalPkg = Some \<lparr>name = ''left-pad'', version = ''^1.3.0''\<rparr>\<rparr>
   = ([ConsoleLog (PackageHeader ''left-pad''),
       ConsoleLog (VulnLine Red (JStr ''HIGH'') (JStr ''Example advisory'')),
       ConsoleLog (VulnId (Some (JStr ''GHSA-0000'')))], None)"
  by (simp add: render_entry_def render_vuln_def high_vuln_def get_prop_def or_else_def
      severityColor_def)

lemma is_exec_simps [simp]:
  "is_exec (Exec s)" "\<not> is_exec (SpinnerStart m)" "\<not> is_exec (SpinnerText m)"
  "\<not> is_exec (SpinnerSucceed m)" "\<not> is_exec (SpinnerFail m)" "\<not> is_exec (SpinnerWarn m)"
  "\<not> is_exec (ConsoleLog m)" "\<not> is_exec ConsoleError" "\<not> is_exec (Spawn c a)"
  "\<not> is_exec (Fetch q)" "\<not> is_exec (Select p)"
  by (simp_all add: is_exec_def)

lemma report_select:
  assumes e: "e \<in> set (fst (processVulnerabilityReport vr C s ch ok))" and sel: "is_select e"
  shows "\<exists>R. own_prop vr ''results'' = Some (JArr R) \<and> foundVulns R C \<noteq> []
             \<and> snd (forEach render_entry (foundVulns R C)) = None"
proof (cases "truthy (Some vr) \<and> truthy (own_prop vr ''results'')")
  case False
  with e sel show ?thesis by (auto simp: pvr_failed)
next
  case True
  show ?thesis
  proof (cases "\<exists>R. own_prop vr ''results'' = Some (JArr R)")
    case False
    with True e show ?thesis by (simp add: pvr_not_array)
  next
    case True
    then obtain R where R: "own_prop vr ''results'' = Some (JArr R)" by blast
    show ?thesis
    proof (cases "foundVulns R C = []")
      case True
      with R e sel show ?thesis by (auto simp: pvr_clean)
    next
      case False
      show ?thesis
      proof (cases "snd (forEach render_entry (foundVulns R C))")
        case (Some a)
        with R False e sel show ?thesis by (auto simp: pvr_crash dest: shown_events)
      next
        case None
        with R False show ?thesis by blast
      qed
    qed
  qed
qed

lemma run_select:
  assumes sel: "Select p \<in> set (fst (install_action pkgs scan w))"
  shows "\<not> ((scan \<or> pkgs = []) \<and> extractPkgNames (manifest w) = [])
       \<and> (\<exists>R. own_prop (oracle_answer pkgs scan w) ''results'' = Some (JArr R)
             \<and> foundVulns R (candidates pkgs scan w) \<noteq> []
             \<and> snd (forEach render_entry (foundVulns R (candidates pkgs scan w))) = None)"
proof -
  have reached: "\<not> ((scan \<or> pkgs = []) \<and> extractPkgNames (manifest w) = [])"
    using sel by (auto simp: install_action_early)
  obtain evs r where rep: "report pkgs scan w = (evs, r)" by (cases "report pkgs scan w")
  have "set (fst (install_action pkgs scan w))
        \<subseteq> set (prelude pkgs scan w) \<union> set evs \<union> {ConsoleLog ScanComplete}
          \<union> set (fst (handover pkgs w))"
    using install_action_reached[OF reached] rep by (auto split: sum.splits if_splits)
  moreover have "Select p \<notin> set (prelude pkgs scan w)"
    using prelude_events[of "Select p" pkgs scan w] by auto
  moreover have "Select p \<notin> set (fst (handover pkgs w))"
    using handover_events[of "Select p" pkgs w] by auto
  ultimately have "Select p \<in> set evs"
    using sel by auto
  then have "Select p \<in> set (fst (processVulnerabilityReport (oracle_answer pkgs scan w)
                 (candidates pkgs scan w) scan (answer w) (uninstall_ok w)))"
    using rep by (simp add: report_def)
  from report_select[OF this] reached show ?thesis by simp
qed





lemma truthy_flagged_body [simp]: "truthy (Some flagged_body)"
  by (simp add: flagged_body_def)

lemma scan_run_prompts:
  "Select ScanPrompt \<in> set (fst (install_action [] True
      (world_of (Response 200 (Some flagged_body)) choice ok code)))"
  by (simp add: install_action_def vulnsCheck_def response_ok_def
      processVulnerabilityReport_def Let_def uninstallPackages_def)

lemma flagged_names_left_pad [simp]:
  "flagged_names (results_of flagged_body) [\<lparr>name = ''left-pad'', version = ''^1.3.0''\<rparr>]
   = [''left-pad'']"
  by (simp add: flagged_names_def results_of_def flagged_positions_def)

lemma replace_first_absent: "c \<notin> set s \<Longrightarrow> replace_first c s = s"
  by (induction s) auto

lemma replace_first_split: "c \<notin> set a \<Longrightarrow> replace_first c (a @ c # b) = a @ b"
  by (induction a) auto

lemma replace_first_subset: "set (replace_first c s) \<subseteq> set s"
  by (induction s) auto

lemma attach_in_range:
  "i < length C \<Longrightarrow>
   attach C (i, r) = \<lparr>vulns = own_prop r ''vulns'', originalPkg = Some (C ! i)\<rparr>"
  by (simp add: attach_def)

lemma flagged_positions_set:
  "set (flagged_positions R) = {i. i < length R \<and> truthy (own_prop (R ! i) ''vulns'')}"
  by (auto simp: flagged_positions_def)

lemma render_entry_header:
  "\<exists>evs. fst (render_entry \<lparr>vulns = v, originalPkg = Some p\<rparr>)
          = ConsoleLog (PackageHeader (name p)) # evs"
  by (auto simp: render_entry_def split: option.splits json.splits prod.splits)

lemma render_count_line:
  "truthy v \<Longrightarrow>
   \<exists>x. render_count \<lparr>vulns = v, originalPkg = Some p\<rparr>
          = ([ConsoleLog (IssueCount (name p) x)], None)"
  by (cases v rule: truthy.cases) (auto simp: render_count_def)

lemma report_no_api_failure:
  assumes R: "own_prop vr ''results'' = Some (JArr R)"
  shows "SpinnerFail ApiFailure \<notin> set (fst (processVulnerabilityReport vr C s ch ok))"
proof (cases "foundVulns R C = []")
  case True
  with R show ?thesis by (simp add: pvr_clean)
next
  case False
  have sh: "SpinnerFail ApiFailure \<notin> set (shown R C)"
    using rendered_events[of "SpinnerFail ApiFailure" "foundVulns R C"]
    by (auto simp: shown_def)
  show ?thesis
  proof (cases "snd (forEach render_entry (foundVulns R C))")
    case (Some a)
    with R False sh show ?thesis by (simp add: pvr_crash)
  next
    case None
    with R False sh show ?thesis
      by (simp add: pvr_prompted uninstallPackages_def)
  qed
qed

lemma foundVulns_empty: "foundVulns R C = [] \<longleftrightarrow> flagged_positions R = []"
  by (simp add: foundVulns_positions)

lemma foundVulns_take:
  "length R \<le> length C \<Longrightarrow> foundVulns R C = foundVulns R (take (length R) C)"
  by (simp add: foundVulns_positions flagged_positions_def attach_def)

lemma extract_empty:
  assumes "manifest w = Some m"
    and "dependencies m = None \<or> dependencies m = Some []"
    and "devDependencies m = None \<or> devDependencies m = Some []"
  shows "extractPkgNames (manifest w) = []"
  using assms by (auto simp: extractPkgNames_def spread_def Object_entries_def)

lemma spawn_means_returned:
  assumes e: "e \<in> set (fst (install_action pkgs scan w))" and sp: "is_spawn e"
  shows "\<not> scan \<and> install_action pkgs scan w
           = (prelude pkgs scan w @ fst (report pkgs scan w) @ fst (handover pkgs w),
              snd (handover pkgs w))"
proof -
  have reached: "\<not> ((scan \<or> pkgs = []) \<and> extractPkgNames (manifest w) = [])"
    using e sp by (auto simp: install_action_early)
  obtain evs r where rep: "report pkgs scan w = (evs, r)" by (cases "report pkgs scan w")
  have evs: "\<And>x. x \<in> set evs \<Longrightarrow> \<not> is_spawn x"
    using report_events_no_spawn[of _ "oracle_answer pkgs scan w" "candidates pkgs scan w"
        scan "answer w" "uninstall_ok w"] rep
    by (simp add: report_def)
  show ?thesis
  proof (cases r)
    case (Inl a)
    then have "fst (install_action pkgs scan w) = prelude pkgs scan w @ evs"
      using install_action_reached[OF reached] rep by simp
    with e sp evs show ?thesis by (auto dest: prelude_events)
  next
    case (Inr b)
    show ?thesis
    proof (cases scan)
      case True
      then have "fst (install_action pkgs scan w)
                 = prelude pkgs scan w @ evs @ [ConsoleLog ScanComplete]"
        using install_action_reached[OF reached] rep Inr by simp
      with e sp evs show ?thesis by (auto dest: prelude_events)
    next
      case False
      then show ?thesis
        using install_action_reached[OF reached] rep Inr by simp
    qed
  qed
qed

lemma index_spawn_means_returned:
  assumes e: "e \<in> set (fst (index_install_action pkgs w))" and sp: "is_spawn e"
  shows "snd (index_install_action pkgs w) = None"
proof (cases "truthy (Some (oracle_answer pkgs False w))
              \<and> truthy (own_prop (oracle_answer pkgs False w) ''results'')")
  case False
  then show ?thesis by (auto simp: index_failed)
next
  case True
  show ?thesis
  proof (cases "\<exists>R. own_prop (oracle_answer pkgs False w) ''results'' = Some (JArr R)")
    case False
    with True have "index_install_action pkgs w = (index_prelude pkgs w, Some TypeError)"
      by (auto simp: index_view split: option.splits json.splits)
    with e sp show ?thesis by (auto dest: index_prelude_events)
  next
    case True
    then obtain R where R: "own_prop (oracle_answer pkgs False w) ''results'' = Some (JArr R)"
      by blast
    show ?thesis
    proof (cases "foundVulns R (candidates pkgs False w) = []")
      case True
      with R show ?thesis by (simp add: index_clean)
    next
      case False
      obtain evs r where fe: "forEach render_count (foundVulns R (candidates pkgs False w)) = (evs, r)"
        by (cases "forEach render_count (foundVulns R (candidates pkgs False w))")
      have logs: "\<And>x. x \<in> set evs \<Longrightarrow> \<not> is_spawn x"
      proof -
        fix x assume "x \<in> set evs"
        with fe have "x \<in> set (fst (forEach render_count (foundVulns R (candidates pkgs False w))))"
          by simp
        then obtain m where "x = ConsoleLog m" using counted_events by blast
        then show "\<not> is_spawn x" by simp
      qed
      have "\<And>x. x \<in> set (fst (index_install_action pkgs w)) \<Longrightarrow> \<not> is_spawn x"
        using index_found[OF R False] fe logs
        by (cases r) (auto dest: index_prelude_events)
      with e sp show ?thesis by blast
    qed
  qed
qed

lemma index_spawn_shape:
  assumes e: "e \<in> set (fst (index_install_action pkgs w))" and sp: "is_spawn e"
  shows "\<exists>evs. index_install_action pkgs w = (evs @ index_handover pkgs w, None)"
proof (cases "truthy (Some (oracle_answer pkgs False w))
              \<and> truthy (own_prop (oracle_answer pkgs False w) ''results'')")
  case False
  then have "index_install_action pkgs w
      = ((index_prelude pkgs w @ [SpinnerFail ApiFailure]) @ index_handover pkgs w, None)"
    by (auto simp: index_failed)
  then show ?thesis by blast
next
  case True
  show ?thesis
  proof (cases "\<exists>R. own_prop (oracle_answer pkgs False w) ''results'' = Some (JArr R)")
    case False
    with True have "index_install_action pkgs w = (index_prelude pkgs w, Some TypeError)"
      by (auto simp: index_view split: option.splits json.splits)
    with e sp show ?thesis by (auto dest: index_prelude_events)
  next
    case True
    then obtain R where R: "own_prop (oracle_answer pkgs False w) ''results'' = Some (JArr R)"
      by blast
    show ?thesis
    proof (cases "foundVulns R (candidates pkgs False w) = []")
      case True
      with R have "index_install_action pkgs w
          = ((index_prelude pkgs w @ [SpinnerSucceed NoKnownVulnerabilities])
               @ index_handover pkgs w, None)"
        by (simp add: index_clean)
      then show ?thesis by blast
    next
      case False
      have "snd (index_install_action pkgs w) \<noteq> None"
        using index_found[OF R False]
        by (auto split: prod.splits option.splits)
      with index_spawn_means_returned[OF e sp] show ?thesis by simp
    qed
  qed
qed

lemma install_prompt_outcome:
  assumes sel: "Select InstallPrompt \<in> set (fst (install_action pkgs scan w))"
  shows "snd (install_action pkgs scan w)
         = (if answer w = ''abort'' then Some (ProcessExit 1) else snd (handover pkgs w))"
proof -
  let ?C = "candidates pkgs scan w"
  from run_select[OF sel] obtain R where
    reached: "\<not> ((scan \<or> pkgs = []) \<and> extractPkgNames (manifest w) = [])"
    and R: "own_prop (oracle_answer pkgs scan w) ''results'' = Some (JArr R)"
    and found: "foundVulns R ?C \<noteq> []"
    and ok: "snd (forEach render_entry (foundVulns R ?C)) = None"
    by auto
  note rep = pvr_prompted[OF R found ok, of scan "answer w" "uninstall_ok w"]
  have s1: "Select InstallPrompt \<notin> set (prelude pkgs scan w)"
    using prelude_events[of "Select InstallPrompt" pkgs scan w] by auto
  have s2: "Select InstallPrompt \<notin> set (shown R ?C)"
    using shown_events[of "Select InstallPrompt" R ?C] by auto
  have s3: "\<And>ns. Select InstallPrompt \<notin> set (uninstallPackages ns (uninstall_ok w))"
    using uninstall_events[of "Select InstallPrompt"] by auto
  have "\<not> scan"
  proof
    assume scan
    then have "set (fst (install_action pkgs scan w))
        \<subseteq> set (prelude pkgs scan w) \<union> set (shown R ?C) \<union> {Select ScanPrompt, ConsoleLog ScanComplete}
          \<union> set (uninstallPackages (map (\<lambda>v. name (the (originalPkg v))) (foundVulns R ?C))
                (uninstall_ok w))"
      using install_action_reached[OF reached] rep by (auto simp: report_def)
    with sel s1 s2 s3 show False by auto
  qed
  then show ?thesis
    using install_action_reached[OF reached] rep by (auto simp: report_def)
qed

lemma exit_one_means_abort:
  assumes ex: "snd (install_action pkgs scan w) = Some (ProcessExit 1)"
  shows "Select InstallPrompt \<in> set (fst (install_action pkgs scan w)) \<and> answer w = ''abort''"
proof -
  let ?C = "candidates pkgs scan w"
  let ?vr = "oracle_answer pkgs scan w"
  have reached: "\<not> ((scan \<or> pkgs = []) \<and> extractPkgNames (manifest w) = [])"
    using ex by (auto simp: install_action_early)
  note view = install_action_reached[OF reached]
  have t: "truthy (Some ?vr) \<and> truthy (own_prop ?vr ''results'')"
  proof (rule ccontr)
    assume "\<not> ?thesis"
    then have "report pkgs scan w = ([SpinnerFail ApiFailure], Inr False)"
      by (auto simp: report_def pvr_failed)
    with view ex show False
      by (simp add: handover_outcome split: if_splits child_outcome.splits)
  qed
  have "\<exists>R. own_prop ?vr ''results'' = Some (JArr R)"
  proof (rule ccontr)
    assume "\<not> ?thesis"
    with t have "report pkgs scan w = ([], Inl TypeError)"
      by (simp add: report_def pvr_not_array)
    with view ex show False by simp
  qed
  then obtain R where R: "own_prop ?vr ''results'' = Some (JArr R)" by blast
  have found: "foundVulns R ?C \<noteq> []"
  proof
    assume "foundVulns R ?C = []"
    with R have "report pkgs scan w = ([SpinnerSucceed NoKnownVulnerabilities], Inr True)"
      by (simp add: report_def pvr_clean)
    with view ex show False
      by (simp add: handover_outcome split: if_splits child_outcome.splits)
  qed
  have ok: "snd (forEach render_entry (foundVulns R ?C)) = None"
  proof (cases "snd (forEach render_entry (foundVulns R ?C))")
    case None then show ?thesis .
  next
    case (Some e)
    then have "e = TypeError"
      using forEach_abort[of render_entry "foundVulns R ?C" e] render_entry_abort by blast
    with Some R found have "report pkgs scan w = (shown R ?C, Inl TypeError)"
      by (simp add: report_def pvr_crash)
    with view ex show ?thesis by simp
  qed
  note rep = pvr_prompted[OF R found ok, of scan "answer w" "uninstall_ok w"]
  from view ex rep show ?thesis
    by (auto simp: report_def handover_outcome split: if_splits child_outcome.splits)
qed

lemma report_clean_returns:
  assumes c: "SpinnerSucceed NoKnownVulnerabilities
              \<in> set (fst (processVulnerabilityReport vr C s ch ok))"
  shows "\<exists>b. snd (processVulnerabilityReport vr C s ch ok) = Inr b"
proof (cases "truthy (Some vr) \<and> truthy (own_prop vr ''results'')")
  case False
  then show ?thesis by (auto simp: pvr_failed)
next
  case True
  show ?thesis
  proof (cases "\<exists>R. own_prop vr ''results'' = Some (JArr R)")
    case False
    with True c show ?thesis by (simp add: pvr_not_array)
  next
    case True
    then obtain R where R: "own_prop vr ''results'' = Some (JArr R)" by blast
    have sh: "SpinnerSucceed NoKnownVulnerabilities \<notin> set (shown R C)"
      using rendered_events[of "SpinnerSucceed NoKnownVulnerabilities" "foundVulns R C"]
      by (auto simp: shown_def)
    show ?thesis
    proof (cases "foundVulns R C = []")
      case True
      with R show ?thesis by (auto simp: pvr_clean)
    next
      case False
      show ?thesis
      proof (cases "snd (forEach render_entry (foundVulns R C))")
        case (Some a)
        with R False sh c show ?thesis by (simp add: pvr_crash)
      next
        case None
        with R False sh c show ?thesis
          by (simp add: pvr_prompted uninstallPackages_def split: if_splits)
      qed
    qed
  qed
qed

lemma clean_report_returns:
  assumes c: "SpinnerSucceed NoKnownVulnerabilities \<in> set (fst (install_action pkgs scan w))"
  shows "snd (install_action pkgs scan w) = (if scan then None else snd (handover pkgs w))"
proof -
  have reached: "\<not> ((scan \<or> pkgs = []) \<and> extractPkgNames (manifest w) = [])"
    using c by (auto simp: install_action_early)
  note view = install_action_reached[OF reached]
  obtain evs r where rep: "report pkgs scan w = (evs, r)" by (cases "report pkgs scan w")
  show ?thesis
  proof (cases r)
    case (Inr b)
    with view rep show ?thesis by simp
  next
    case (Inl a)
    with view rep have "fst (install_action pkgs scan w) = prelude pkgs scan w @ evs" by simp
    moreover have "SpinnerSucceed NoKnownVulnerabilities \<notin> set (prelude pkgs scan w)"
      by (auto simp: prelude_def fetchPackageVersions_def vulnsCheck_def Let_def)
    ultimately have "SpinnerSucceed NoKnownVulnerabilities \<in> set evs" using c by simp
    then have "SpinnerSucceed NoKnownVulnerabilities
               \<in> set (fst (processVulnerabilityReport (oracle_answer pkgs scan w)
                    (candidates pkgs scan w) scan (answer w) (uninstall_ok w)))"
      using rep by (simp add: report_def)
    from report_clean_returns[OF this] rep Inl show ?thesis by (simp add: report_def)
  qed
qed

lemma install_run_prompts:
  "Select InstallPrompt \<in> set (fst (install_action [] False
      (world_of (Response 200 (Some flagged_body)) choice ok code)))"
  by (simp add: install_action_def vulnsCheck_def response_ok_def
      processVulnerabilityReport_def Let_def on_close_def split: child_outcome.splits)

lemma clean_run_spawns:
  "Spawn ''npm'' [''install''] \<in> set (fst (install_action [] False
      (world_of (Response 200 (Some clean_body)) choice ok code)))"
  by (simp add: install_action_def vulnsCheck_def response_ok_def clean_body_def
      processVulnerabilityReport_def Let_def foundVulns_def attach_def enumerate_eq_zip
      split: child_outcome.splits)

text \<open>
  A child that cannot be started: the handler without an \<^verbatim>\<open>'error'\<close> listener ends with
  the thrown event and status 1 after the hand-over; the handler of \<^verbatim>\<open>index.js\<close> prints
  the error and the failure line and runs to its end.
\<close>

lemma unstarted_child_ends_run:
  "install_action [] False
     (world_of (Response 200 (Some clean_body)) ''abort'' True (SpawnError (- 2)))
     = ([SpinnerStart Preparing, SpinnerText ReadingPackageJson, SpinnerSucceed (PreparedList 1),
         SpinnerStart CheckingVulnerabilities, Fetch [Query ''1.3.0'' ''left-pad'' ''npm''],
         SpinnerSucceed NoKnownVulnerabilities, ConsoleLog HandingOver,
         Spawn ''npm'' [''install'']], Some ChildError)
   \<and> exit_code (Some ChildError) = 1"
  by (simp add: install_action_def vulnsCheck_def response_ok_def clean_body_def
      processVulnerabilityReport_def Let_def foundVulns_def attach_def enumerate_eq_zip)

lemma unstarted_child_reported:
  "index_install_action []
     (world_of (Response 200 (Some clean_body)) ''abort'' True (SpawnError (- 2)))
     = ([SpinnerStart PreparingPackageList, SpinnerText ReadingPackageJson,
         SpinnerSucceed PackageListPrepared, SpinnerStart CheckingVulnerabilities,
         Fetch [Query ''1.3.0'' ''left-pad'' ''npm''],
         SpinnerSucceed NoKnownVulnerabilities, ConsoleLog HandingOver,
         Spawn ''npm'' [''install''], ConsoleLog AnErrorOccured,
         ConsoleLog InstallationFailed], None)"
  by (simp add: index_install_action_def vulnsCheck_def response_ok_def clean_body_def
      index_child_def on_close_def Let_def foundVulns_def attach_def enumerate_eq_zip)

section \<open>Properties of the specification\<close>

text \<open>
  C1. In install mode, when the oracle's answer has a results array with at least one
  flagged package and the operator's choice is "abort", the run ends with status 1 and the
  package manager's install is never started; once the prompt has been shown the run ends
  by \<^verbatim>\<open>process.exit(1)\<close>. This holds for every argument list, manifest, registry and
  oracle answer that reach the oracle request. The handler of \<^verbatim>\<open>index.js\<close>, which has
  no prompt, ends the same way on every flagged answer.
\<close>

theorem abort_blocks_install:
  assumes reached: "pkgs \<noteq> [] \<or> extractPkgNames (manifest w) \<noteq> []"
    and results: "own_prop (oracle_answer pkgs False w) ''results'' = Some (JArr R)"
    and flagged: "foundVulns R (candidates pkgs False w) \<noteq> []"
    and abort: "answer w = ''abort''"
  shows "exit_code (snd (install_action pkgs False w)) = 1
       \<and> filter is_spawn (fst (install_action pkgs False w)) = []
       \<and> (Select InstallPrompt \<in> set (fst (install_action pkgs False w))
            \<longrightarrow> snd (install_action pkgs False w) = Some (ProcessExit 1))
       \<and> exit_code (snd (index_install_action pkgs w)) = 1
       \<and> filter is_spawn (fst (index_install_action pkgs w)) = []"
proof -
  let ?C = "candidates pkgs False w"
  let ?found = "foundVulns R ?C"
  note view = install_mode_reached[OF reached]
  have main: "exit_code (snd (install_action pkgs False w)) = 1
       \<and> filter is_spawn (fst (install_action pkgs False w)) = []
       \<and> (Select InstallPrompt \<in> set (fst (install_action pkgs False w))
            \<longrightarrow> snd (install_action pkgs False w) = Some (ProcessExit 1))"
  proof (cases "snd (forEach render_entry ?found)")
    case None
    then have "report pkgs False w =
        (shown R ?C @ [Select InstallPrompt, ConsoleLog Aborting], Inl (ProcessExit 1))"
      using pvr_prompted[OF results flagged, of False "answer w" "uninstall_ok w"] abort
      by (simp add: report_def)
    then show ?thesis
      by (auto simp: view filter_empty_conv dest: prelude_events shown_events)
  next
    case (Some e)
    then have e: "e = TypeError"
      using forEach_abort[of render_entry ?found e] render_entry_abort by blast
    have "report pkgs False w = (shown R ?C, Inl e)"
      using pvr_crash[OF results flagged Some] by (simp add: report_def)
    then show ?thesis
      using e by (auto simp: view filter_empty_conv dest: prelude_events shown_events)
  qed
  have index: "exit_code (snd (index_install_action pkgs w)) = 1
       \<and> filter is_spawn (fst (index_install_action pkgs w)) = []"
  proof -
    obtain evs r where fe: "forEach render_count ?found = (evs, r)"
      by (cases "forEach render_count ?found")
    have logs: "\<And>e. e \<in> set evs \<Longrightarrow> \<not> is_spawn e"
    proof -
      fix e assume "e \<in> set evs"
      with fe have "e \<in> set (fst (forEach render_count ?found))" by simp
      then obtain m where "e = ConsoleLog m" using counted_events by blast
      then show "\<not> is_spawn e" by (simp add: is_spawn_def)
    qed
    have r: "r = None \<or> r = Some TypeError"
      using forEach_abort[of render_count ?found] render_count_abort fe
      by (cases r) auto
    from r show ?thesis
      using index_found[OF results flagged] fe logs
      by (auto simp: filter_empty_conv dest: index_prelude_events)
  qed
  from main index show ?thesis by simp
qed

theorem abort_blocks_install_witness:
  "exit_code (snd (install_action [] False
       (world_of (Response 200 (Some flagged_body)) ''abort'' True (Closed (Some 0))))) = 1
   \<and> filter is_spawn (fst (install_action [] False
       (world_of (Response 200 (Some flagged_body)) ''abort'' True (Closed (Some 0))))) = []"
proof -
  let ?w = "world_of (Response 200 (Some flagged_body)) ''abort'' True (Closed (Some 0))"
  have h1: "[] \<noteq> ([]::string list) \<or> extractPkgNames (manifest ?w) \<noteq> []" by simp
  have h2: "own_prop (oracle_answer [] False ?w) ''results''
            = Some (JArr [JObj [(''vulns'', JArr [high_vuln])]])" by simp
  have h3: "foundVulns [JObj [(''vulns'', JArr [high_vuln])]] (candidates [] False ?w) \<noteq> []"
    by simp
  have h4: "answer ?w = ''abort''" by simp
  from abort_blocks_install[OF h1 h2 h3 h4] show ?thesis by blast
qed



text \<open>
  C4. When the oracle request is made and \<^verbatim>\<open>vulnsCheck\<close> returns \<^verbatim>\<open>null\<close>, an install-mode
  run consists of the preparation, the failure report and the hand-over to the package
  manager: \<^verbatim>\<open>npm install\<close> is spawned with the arguments of the command line and no
  prompt is shown. Both handlers behave so, and with a child that starts they run to
  their end.
\<close>

theorem oracle_failure_fails_open:
  assumes reached: "pkgs \<noteq> [] \<or> extractPkgNames (manifest w) \<noteq> []"
    and failed: "oracle_answer pkgs False w = JNull"
  shows "install_action pkgs False w
           = (prelude pkgs False w @ [SpinnerFail ApiFailure] @ fst (handover pkgs w),
              snd (handover pkgs w))
       \<and> index_install_action pkgs w
           = (index_prelude pkgs w @ [SpinnerFail ApiFailure] @ index_handover pkgs w, None)
       \<and> Spawn ''npm'' (''install'' # pkgs) \<in> set (fst (handover pkgs w))
       \<and> Spawn ''npm'' (''install'' # pkgs) \<in> set (index_handover pkgs w)
       \<and> snd (handover pkgs w)
           = (case child w of Closed code \<Rightarrow> None | SpawnError errno \<Rightarrow> Some ChildError)
       \<and> filter is_select (fst (install_action pkgs False w)) = []
       \<and> filter is_select (fst (index_install_action pkgs w)) = []"
proof -
  have rep: "report pkgs False w = ([SpinnerFail ApiFailure], Inr False)"
    using failed by (simp add: report_def pvr_failed)
  have run: "install_action pkgs False w
           = (prelude pkgs False w @ [SpinnerFail ApiFailure] @ fst (handover pkgs w),
              snd (handover pkgs w))"
    using install_mode_reached[OF reached] rep by simp
  have idx: "index_install_action pkgs w
           = (index_prelude pkgs w @ [SpinnerFail ApiFailure] @ index_handover pkgs w, None)"
    using failed by (simp add: index_failed)
  have sp: "Spawn ''npm'' (''install'' # pkgs) \<in> set (fst (handover pkgs w))"
    by (simp add: handover_def split: child_outcome.splits)
  have sp': "Spawn ''npm'' (''install'' # pkgs) \<in> set (index_handover pkgs w)"
    by (simp add: index_handover_def)
  have n1: "filter is_select (prelude pkgs False w) = []"
    by (auto simp: filter_empty_conv dest: prelude_events)
  have n2: "filter is_select (index_prelude pkgs w) = []"
    by (auto simp: filter_empty_conv dest: index_prelude_events)
  have n3: "filter is_select (fst (handover pkgs w)) = []"
    by (auto simp: filter_empty_conv dest: handover_events)
  have n4: "filter is_select (index_handover pkgs w) = []"
    by (auto simp: filter_empty_conv dest: index_handover_events)
  show ?thesis using sp sp' n1 n2 n3 n4 handover_outcome[of pkgs w] by (simp add: run idx)
qed

theorem oracle_failure_fails_open_witness:
  "Spawn ''npm'' [''install''] \<in> set (fst (install_action [] False
       (world_of NetworkFailure ''abort'' True (Closed (Some 0)))))
   \<and> SpinnerFail ApiFailure \<in> set (fst (install_action [] False
       (world_of NetworkFailure ''abort'' True (Closed (Some 0)))))
   \<and> filter is_select (fst (install_action [] False
       (world_of NetworkFailure ''abort'' True (Closed (Some 0))))) = []"
proof -
  let ?w = "world_of NetworkFailure ''abort'' True (Closed (Some 0))"
  have h1: "[] \<noteq> ([]::string list) \<or> extractPkgNames (manifest ?w) \<noteq> []" by simp
  have h2: "oracle_answer [] False ?w = JNull"
    by (simp add: oracle_answer_def vulnsCheck_def)
  note fo = oracle_failure_fails_open[OF h1 h2]
  from fo have run: "install_action [] False ?w
      = (prelude [] False ?w @ [SpinnerFail ApiFailure] @ fst (handover [] ?w),
         snd (handover [] ?w))" by blast
  from fo have sel: "filter is_select (fst (install_action [] False ?w)) = []" by blast
  have "Spawn ''npm'' [''install''] \<in> set (fst (install_action [] False ?w))"
    by (simp add: run handover_def)
  moreover have "SpinnerFail ApiFailure \<in> set (fst (install_action [] False ?w))"
    by (simp add: run)
  ultimately show ?thesis using sel by blast
qed

text \<open>
  C10. In scan mode, when the operator's choice is "uninstall" and the uninstall command
  fails, the failure is only reported (the spinner's failure line and the error on the
  console) and the run still ends by \<^verbatim>\<open>process.exit(0)\<close>.
\<close>

theorem uninstall_failure_swallowed:
  assumes prompted: "Select ScanPrompt \<in> set (fst (install_action pkgs True w))"
    and uninstall: "answer w = ''uninstall''"
    and failed: "\<not> uninstall_ok w"
  shows "SpinnerFail UninstallFailed \<in> set (fst (install_action pkgs True w))
       \<and> ConsoleError \<in> set (fst (install_action pkgs True w))
       \<and> snd (install_action pkgs True w) = Some (ProcessExit 0)
       \<and> exit_code (snd (install_action pkgs True w)) = 0"
proof -
  let ?C = "candidates pkgs True w"
  from run_select[OF prompted] obtain R where
    reached: "extractPkgNames (manifest w) \<noteq> []"
    and R: "own_prop (oracle_answer pkgs True w) ''results'' = Some (JArr R)"
    and found: "foundVulns R ?C \<noteq> []"
    and ok: "snd (forEach render_entry (foundVulns R ?C)) = None"
    by auto
  have rep: "report pkgs True w =
      (shown R ?C @ [Select ScanPrompt]
         @ uninstallPackages (map (\<lambda>v. name (the (originalPkg v))) (foundVulns R ?C)) False,
       Inl (ProcessExit 0))"
    using pvr_prompted[OF R found ok, of True "answer w" "uninstall_ok w"] uninstall failed
    by (simp add: report_def)
  show ?thesis
    using scan_mode_reached[OF reached] rep by (simp add: uninstallPackages_def)
qed

theorem uninstall_failure_swallowed_witness:
  "SpinnerFail UninstallFailed \<in> set (fst (install_action [] True
       (world_of (Response 200 (Some flagged_body)) ''uninstall'' False (Closed None))))
   \<and> exit_code (snd (install_action [] True
       (world_of (Response 200 (Some flagged_body)) ''uninstall'' False (Closed None)))) = 0"
proof -
  let ?w = "world_of (Response 200 (Some flagged_body)) ''uninstall'' False (Closed None)"
  have h1: "Select ScanPrompt \<in> set (fst (install_action [] True ?w))"
    by (rule scan_run_prompts)
  have h2: "answer ?w = ''uninstall''" by simp
  have h3: "\<not> uninstall_ok ?w" by simp
  from uninstall_failure_swallowed[OF h1 h2 h3] show ?thesis by blast
qed

text \<open>
  C2 (amended). For every candidate list \<open>C\<close> and results array \<open>R\<close> of the same length, the
  flagged-package list consists of exactly the positions \<open>i\<close> where \<^verbatim>\<open>R[i].vulns\<close> is truthy,
  in the oracle's order: a result without \<^verbatim>\<open>vulns\<close> is clean, and a result whose
  \<^verbatim>\<open>vulns\<close> is an array is flagged, whether the array is empty or not. The rendered entry at
  each flagged position starts with the package line of \<^verbatim>\<open>C[i].name\<close> (and the line
  \<^verbatim>\<open>index.js\<close> prints for it carries that name).
\<close>

theorem flagged_by_presence:
  assumes len: "length R = length C"
  shows "foundVulns R C
           = map (\<lambda>i. \<lparr>vulns = own_prop (R ! i) ''vulns'', originalPkg = Some (C ! i)\<rparr>)
               (flagged_positions R)
       \<and> set (flagged_positions R) = {i. i < length R \<and> truthy (own_prop (R ! i) ''vulns'')}
       \<and> (\<forall>i<length R. own_prop (R ! i) ''vulns'' = None \<longrightarrow> i \<notin> set (flagged_positions R))
       \<and> (\<forall>i<length R. \<forall>vs. own_prop (R ! i) ''vulns'' = Some (JArr vs)
             \<longrightarrow> i \<in> set (flagged_positions R))
       \<and> (\<forall>i\<in>set (flagged_positions R).
             \<exists>evs. fst (render_entry (attach C (i, R ! i)))
                     = ConsoleLog (PackageHeader (name (C ! i))) # evs)
       \<and> (\<forall>i\<in>set (flagged_positions R).
             \<exists>x. render_count (attach C (i, R ! i))
                     = ([ConsoleLog (IssueCount (name (C ! i)) x)], None))"
proof -
  have inr: "\<And>i. i \<in> set (flagged_positions R) \<Longrightarrow> i < length C"
    using len by (simp add: flagged_positions_set)
  have list: "foundVulns R C
           = map (\<lambda>i. \<lparr>vulns = own_prop (R ! i) ''vulns'', originalPkg = Some (C ! i)\<rparr>)
               (flagged_positions R)"
    using inr by (simp add: foundVulns_positions attach_in_range)
  have absent: "\<forall>i<length R. own_prop (R ! i) ''vulns'' = None \<longrightarrow> i \<notin> set (flagged_positions R)"
    by (simp add: flagged_positions_set)
  have array: "\<forall>i<length R. \<forall>vs. own_prop (R ! i) ''vulns'' = Some (JArr vs)
             \<longrightarrow> i \<in> set (flagged_positions R)"
    by (simp add: flagged_positions_set)
  have header: "\<forall>i\<in>set (flagged_positions R).
             \<exists>evs. fst (render_entry (attach C (i, R ! i)))
                     = ConsoleLog (PackageHeader (name (C ! i))) # evs"
    using inr by (simp add: attach_in_range render_entry_header)
  have count: "\<forall>i\<in>set (flagged_positions R).
             \<exists>x. render_count (attach C (i, R ! i))
                     = ([ConsoleLog (IssueCount (name (C ! i)) x)], None)"
  proof
    fix i assume i: "i \<in> set (flagged_positions R)"
    then have "truthy (own_prop (R ! i) ''vulns'')" by (simp add: flagged_positions_set)
    then show "\<exists>x. render_count (attach C (i, R ! i))
                     = ([ConsoleLog (IssueCount (name (C ! i)) x)], None)"
      using inr[OF i] by (simp add: attach_in_range render_count_line)
  qed
  from list flagged_positions_set absent array header count show ?thesis by blast
qed

theorem flagged_by_presence_witness:
  "length [JObj [(''vulns'', JArr [high_vuln])], JObj []]
     = length [\<lparr>name = ''left-pad'', version = ''^1.3.0''\<rparr>, \<lparr>name = ''chalk'', version = ''5.3.0''\<rparr>]
   \<and> foundVulns [JObj [(''vulns'', JArr [high_vuln])], JObj []]
       [\<lparr>name = ''left-pad'', version = ''^1.3.0''\<rparr>, \<lparr>name = ''chalk'', version = ''5.3.0''\<rparr>]
     = [\<lparr>vulns = Some (JArr [high_vuln]),
          originalPkg = Some \<lparr>name = ''left-pad'', version = ''^1.3.0''\<rparr>\<rparr>]"
proof -
  let ?R = "[JObj [(''vulns'', JArr [high_vuln])], JObj []]"
  let ?C = "[\<lparr>name = ''left-pad'', version = ''^1.3.0''\<rparr>, \<lparr>name = ''chalk'', version = ''5.3.0''\<rparr>]"
  have len: "length ?R = length ?C" by simp
  have pos: "flagged_positions ?R = [0]"
    by (simp add: flagged_positions_def upt_rec)
  from flagged_by_presence[OF len] have "foundVulns ?R ?C
           = map (\<lambda>i. \<lparr>vulns = own_prop (?R ! i) ''vulns'', originalPkg = Some (?C ! i)\<rparr>)
               (flagged_positions ?R)" by blast
  then show ?thesis unfolding pos by simp
qed

text \<open>
  The claim as first stated counts a position with an empty \<^verbatim>\<open>vulns\<close> sequence as clean.
  The filter tests \<^verbatim>\<open>r.vulns\<close> for truthiness, and an empty array is truthy: the result
  \<^verbatim>\<open>{"vulns": []}\<close> is flagged.
\<close>

theorem empty_vulns_array_is_flagged:
  "foundVulns [JObj [(''vulns'', JArr [])]] [\<lparr>name = ''left-pad'', version = ''^1.3.0''\<rparr>]
     = [\<lparr>vulns = Some (JArr []),
          originalPkg = Some \<lparr>name = ''left-pad'', version = ''^1.3.0''\<rparr>\<rparr>]
   \<and> flagged_positions [JObj [(''vulns'', JArr [])]] = [0]"
  by (simp add: foundVulns_def attach_def enumerate_eq_zip flagged_positions_def)

text \<open>
  C5 (amended). \<^verbatim>\<open>vulnsCheck\<close> returns \<^verbatim>\<open>null\<close> for a network-level failure, for every
  status outside 200..299 and for a body that is not JSON. For a status in 200..299 with a
  JSON body it returns the parsed body as it is, with or without a \<^verbatim>\<open>results\<close> member. A
  body without \<^verbatim>\<open>results\<close> is turned into the failure report by
  \<^verbatim>\<open>processVulnerabilityReport\<close>.
\<close>

theorem vulnsCheck_results:
  "snd (vulnsCheck C NetworkFailure) = JNull
   \<and> (\<not> response_ok status \<longrightarrow> snd (vulnsCheck C (Response status body)) = JNull)
   \<and> snd (vulnsCheck C (Response status None)) = JNull
   \<and> (response_ok status \<longrightarrow> snd (vulnsCheck C (Response status (Some data))) = data)
   \<and> (own_prop data ''results'' = None \<longrightarrow>
        processVulnerabilityReport data C s ch ok = ([SpinnerFail ApiFailure], Inr False))"
  by (simp add: vulnsCheck_def pvr_failed)

theorem vulnsCheck_results_witness:
  "\<not> response_ok 500
   \<and> snd (vulnsCheck [] (Response 500 (Some clean_body))) = JNull
   \<and> response_ok 200
   \<and> snd (vulnsCheck [] (Response 200 (Some (JObj [])))) = JObj []
   \<and> processVulnerabilityReport (JObj []) [] False ''abort'' True
       = ([SpinnerFail ApiFailure], Inr False)"
proof -
  have a: "\<not> response_ok 500" by (simp add: response_ok_def)
  have b: "response_ok 200" by (simp add: response_ok_def)
  have c: "own_prop (JObj []) ''results'' = None" by simp
  from a b c vulnsCheck_results[of "[]" 500 "Some clean_body"]
    vulnsCheck_results[of "[]" 200 _ "JObj []" False "''abort''" True]
  show ?thesis by blast
qed

text \<open>
  The claim as first stated has the query function return \<^verbatim>\<open>null\<close> for a body without
  the \<^verbatim>\<open>results\<close> array. For status 200 and the body \<^verbatim>\<open>{}\<close> it returns \<^verbatim>\<open>{}\<close>.
\<close>

theorem body_without_results_returned:
  "snd (vulnsCheck [\<lparr>name = ''left-pad'', version = ''^1.3.0''\<rparr>] (Response 200 (Some (JObj []))))
     = JObj []
   \<and> own_prop (JObj []) ''results'' = None \<and> JObj [] \<noteq> JNull"
  by (simp add: vulnsCheck_def response_ok_def)

text \<open>
  C6 (amended). For a run whose package-manager child, if one is spawned, starts and
  closes: the run ends with status 0 when the report is clean and whenever the package
  manager's install is spawned (after a clean report, a failed oracle call or the
  operator's choice to go on), whatever code the child closes with; a child that closes
  with a code other than 0 is reported by the line "Installation failed." and the status
  stays 0. The run ends by \<^verbatim>\<open>process.exit(1)\<close> exactly when the install prompt was shown
  and the operator's choice is "abort". A child that cannot be started is outside this
  statement.
\<close>

theorem exit_code_of_run:
  assumes started: "child w = Closed code"
  shows "(Spawn ''npm'' (''install'' # pkgs) \<in> set (fst (install_action pkgs scan w)) \<longrightarrow>
      exit_code (snd (install_action pkgs scan w)) = 0
      \<and> (code \<noteq> Some 0 \<longrightarrow>
           ConsoleLog InstallationFailed \<in> set (fst (install_action pkgs scan w))))
   \<and> (Select InstallPrompt \<in> set (fst (install_action pkgs scan w)) \<longrightarrow>
      snd (install_action pkgs scan w)
        = (if answer w = ''abort'' then Some (ProcessExit 1) else None))
   \<and> (snd (install_action pkgs scan w) = Some (ProcessExit 1) \<longrightarrow>
      Select InstallPrompt \<in> set (fst (install_action pkgs scan w)) \<and> answer w = ''abort'')
   \<and> (SpinnerSucceed NoKnownVulnerabilities \<in> set (fst (install_action pkgs scan w)) \<longrightarrow>
      exit_code (snd (install_action pkgs scan w)) = 0)
   \<and> (Spawn ''npm'' (''install'' # pkgs) \<in> set (fst (index_install_action pkgs w)) \<longrightarrow>
      exit_code (snd (index_install_action pkgs w)) = 0
      \<and> (code \<noteq> Some 0 \<longrightarrow>
           ConsoleLog InstallationFailed \<in> set (fst (index_install_action pkgs w))))"
proof -
  let ?run = "install_action pkgs scan w"
  have ho: "handover pkgs w
      = ([ConsoleLog HandingOver, Spawn ''npm'' (''install'' # pkgs)]
           @ on_close (pkgs = []) (candidates pkgs False w) code (not_found w), None)"
    using started by (simp add: handover_def)
  have child: "Spawn ''npm'' (''install'' # pkgs) \<in> set (fst ?run) \<longrightarrow>
      exit_code (snd ?run) = 0
      \<and> (code \<noteq> Some 0 \<longrightarrow> ConsoleLog InstallationFailed \<in> set (fst ?run))"
  proof
    assume sp: "Spawn ''npm'' (''install'' # pkgs) \<in> set (fst ?run)"
    have "is_spawn (Spawn ''npm'' (''install'' # pkgs))" by simp
    from spawn_means_returned[OF sp this] have
      "?run = (prelude pkgs scan w @ fst (report pkgs scan w) @ fst (handover pkgs w),
               snd (handover pkgs w))" by blast
    then show "exit_code (snd ?run) = 0
      \<and> (code \<noteq> Some 0 \<longrightarrow> ConsoleLog InstallationFailed \<in> set (fst ?run))"
      by (simp add: ho on_close_def)
  qed
  have prompt: "Select InstallPrompt \<in> set (fst ?run) \<longrightarrow>
      snd ?run = (if answer w = ''abort'' then Some (ProcessExit 1) else None)"
    using install_prompt_outcome[of pkgs scan w] by (simp add: ho)
  have one: "snd ?run = Some (ProcessExit 1) \<longrightarrow>
      Select InstallPrompt \<in> set (fst ?run) \<and> answer w = ''abort''"
    using exit_one_means_abort by blast
  have idx: "Spawn ''npm'' (''install'' # pkgs) \<in> set (fst (index_install_action pkgs w)) \<longrightarrow>
      exit_code (snd (index_install_action pkgs w)) = 0
      \<and> (code \<noteq> Some 0 \<longrightarrow>
           ConsoleLog InstallationFailed \<in> set (fst (index_install_action pkgs w)))"
  proof
    assume sp: "Spawn ''npm'' (''install'' # pkgs) \<in> set (fst (index_install_action pkgs w))"
    have isp: "is_spawn (Spawn ''npm'' (''install'' # pkgs))" by simp
    from index_spawn_shape[OF sp isp] obtain evs where
      run: "index_install_action pkgs w = (evs @ index_handover pkgs w, None)" by blast
    have "code \<noteq> Some 0 \<longrightarrow> ConsoleLog InstallationFailed \<in> set (index_handover pkgs w)"
      using started by (simp add: index_handover_def index_child_def on_close_def)
    then show "exit_code (snd (index_install_action pkgs w)) = 0
      \<and> (code \<noteq> Some 0 \<longrightarrow>
           ConsoleLog InstallationFailed \<in> set (fst (index_install_action pkgs w)))"
      by (simp add: run)
  qed
  have clean: "SpinnerSucceed NoKnownVulnerabilities \<in> set (fst ?run) \<longrightarrow>
      exit_code (snd ?run) = 0"
    using clean_report_returns[of pkgs scan w] by (simp add: ho)
  from child prompt one clean idx show ?thesis by blast
qed

theorem exit_code_of_run_witness:
  "snd (install_action [] False
       (world_of (Response 200 (Some flagged_body)) ''abort'' True (Closed (Some 0))))
     = Some (ProcessExit 1)
   \<and> exit_code (snd (install_action [] False
       (world_of (Response 200 (Some clean_body)) ''abort'' True (Closed (Some 1))))) = 0
   \<and> ConsoleLog InstallationFailed \<in> set (fst (install_action [] False
       (world_of (Response 200 (Some clean_body)) ''abort'' True (Closed (Some 1)))))"
proof -
  let ?w1 = "world_of (Response 200 (Some flagged_body)) ''abort'' True (Closed (Some 0))"
  let ?w2 = "world_of (Response 200 (Some clean_body)) ''abort'' True (Closed (Some 1))"
  have s1: "child ?w1 = Closed (Some 0)" by simp
  have s2: "child ?w2 = Closed (Some 1)" by simp
  have h1: "Select InstallPrompt \<in> set (fst (install_action [] False ?w1))"
    by (rule install_run_prompts)
  have a1: "answer ?w1 = ''abort''" by simp
  have h2: "Spawn ''npm'' (''install'' # []) \<in> set (fst (install_action [] False ?w2))"
    by (rule clean_run_spawns)
  have c2: "Some (1::int) \<noteq> Some 0" by simp
  from exit_code_of_run[OF s1, of "[]" False] h1 a1
  have r1: "snd (install_action [] False ?w1) = Some (ProcessExit 1)" by simp
  from exit_code_of_run[OF s2, of "[]" False] h2 c2
  have r2: "exit_code (snd (install_action [] False ?w2)) = 0
            \<and> ConsoleLog InstallationFailed \<in> set (fst (install_action [] False ?w2))"
    by blast
  from r1 r2 show ?thesis by blast
qed

text \<open>
  The claim as first stated has status 1 when the install child exits non-zero. With a
  clean report and a child that closes with code 1 the run prints the failure line and
  ends with status 0.
\<close>

theorem failed_install_exits_zero:
  "exit_code (snd (install_action [] False
       (world_of (Response 200 (Some clean_body)) ''abort'' True (Closed (Some 1))))) = 0
   \<and> fst (install_action [] False
       (world_of (Response 200 (Some clean_body)) ''abort'' True (Closed (Some 1))))
     = [SpinnerStart Preparing, SpinnerText ReadingPackageJson, SpinnerSucceed (PreparedList 1),
        SpinnerStart CheckingVulnerabilities, Fetch [Query ''1.3.0'' ''left-pad'' ''npm''],
        SpinnerSucceed NoKnownVulnerabilities, ConsoleLog HandingOver,
        Spawn ''npm'' [''install''], ConsoleLog InstallationFailed]"
  by (simp add: install_action_def vulnsCheck_def response_ok_def clean_body_def
      processVulnerabilityReport_def Let_def foundVulns_def attach_def enumerate_eq_zip
      on_close_def)

text \<open>
  C7 (amended). For a default install with a manifest without dependencies the candidate
  list is empty. The handler with the \<^verbatim>\<open>--scan\<close> option then reports that no packages
  were found and returns: the oracle is not queried and the package manager is not
  started. The handler of \<^verbatim>\<open>index.js\<close> queries the oracle with an empty batch and, when the
  answer has a results array without flagged entries, reports "clean" and starts the
  package manager's install with no package arguments.
\<close>

theorem empty_manifest_default_install:
  assumes m: "manifest w = Some m"
    and deps: "dependencies m = None \<or> dependencies m = Some []"
    and dev: "devDependencies m = None \<or> devDependencies m = Some []"
  shows "candidates [] False w = []
       \<and> install_action [] False w
           = ([SpinnerStart Preparing, SpinnerText ReadingPackageJson,
               SpinnerFail NoPackagesFound], None)
       \<and> (own_prop (oracle_answer [] False w) ''results'' = Some (JArr R)
            \<and> flagged_positions R = [] \<longrightarrow>
          index_install_action [] w
           = ([SpinnerStart PreparingPackageList, SpinnerText ReadingPackageJson,
               SpinnerSucceed PackageListPrepared, SpinnerStart CheckingVulnerabilities,
               Fetch [], SpinnerSucceed NoKnownVulnerabilities, ConsoleLog HandingOver,
               Spawn ''npm'' [''install'']]
              @ index_child True [] w, None))"
proof -
  have e: "extractPkgNames (manifest w) = []" using extract_empty[OF m deps dev] .
  have c: "candidates [] False w = []" using e by (simp add: candidates_def)
  have early: "install_action [] False w
           = ([SpinnerStart Preparing, SpinnerText ReadingPackageJson,
               SpinnerFail NoPackagesFound], None)"
    using e by (simp add: install_action_early)
  have idx: "own_prop (oracle_answer [] False w) ''results'' = Some (JArr R)
            \<and> flagged_positions R = [] \<longrightarrow>
          index_install_action [] w
           = ([SpinnerStart PreparingPackageList, SpinnerText ReadingPackageJson,
               SpinnerSucceed PackageListPrepared, SpinnerStart CheckingVulnerabilities,
               Fetch [], SpinnerSucceed NoKnownVulnerabilities, ConsoleLog HandingOver,
               Spawn ''npm'' [''install'']]
              @ index_child True [] w, None)"
  proof
    assume a: "own_prop (oracle_answer [] False w) ''results'' = Some (JArr R)
            \<and> flagged_positions R = []"
    then have f: "foundVulns R (candidates [] False w) = []" by (simp add: foundVulns_empty)
    from a have r: "own_prop (oracle_answer [] False w) ''results'' = Some (JArr R)" by simp
    show "index_install_action [] w
           = ([SpinnerStart PreparingPackageList, SpinnerText ReadingPackageJson,
               SpinnerSucceed PackageListPrepared, SpinnerStart CheckingVulnerabilities,
               Fetch [], SpinnerSucceed NoKnownVulnerabilities, ConsoleLog HandingOver,
               Spawn ''npm'' [''install'']]
              @ index_child True [] w, None)"
      using index_clean[OF r f] c
      by (simp add: index_prelude_def index_handover_def vulnsCheck_def)
  qed
  from c early idx show ?thesis by blast
qed

theorem empty_manifest_default_install_witness:
  "candidates [] False world_empty = []
   \<and> index_install_action [] world_empty
       = ([SpinnerStart PreparingPackageList, SpinnerText ReadingPackageJson,
           SpinnerSucceed PackageListPrepared, SpinnerStart CheckingVulnerabilities,
           Fetch [], SpinnerSucceed NoKnownVulnerabilities, ConsoleLog HandingOver,
           Spawn ''npm'' [''install''], ConsoleLog InstalledSuccessfully], None)"
proof -
  have m: "manifest world_empty = Some \<lparr>dependencies = Some [], devDependencies = None\<rparr>"
    by (simp add: world_empty_def empty_manifest_def)
  have deps: "dependencies \<lparr>dependencies = Some [], devDependencies = None\<rparr> = None
              \<or> dependencies \<lparr>dependencies = Some [], devDependencies = None\<rparr> = Some []"
    by simp
  have dev: "devDependencies \<lparr>dependencies = Some ([]::(string \<times> string) list), devDependencies = None\<rparr> = None
              \<or> devDependencies \<lparr>dependencies = Some ([]::(string \<times> string) list), devDependencies = None\<rparr> = Some []"
    by simp
  note inst = empty_manifest_default_install[OF m deps dev, of "[]"]
  from inst have c: "candidates [] False world_empty = []" by blast
  have r: "own_prop (oracle_answer [] False world_empty) ''results'' = Some (JArr [])
           \<and> flagged_positions [] = []"
    using c by (simp add: oracle_answer_def vulnsCheck_def response_ok_def world_empty_def
        flagged_positions_def)
  from inst r have "index_install_action [] world_empty
       = ([SpinnerStart PreparingPackageList, SpinnerText ReadingPackageJson,
           SpinnerSucceed PackageListPrepared, SpinnerStart CheckingVulnerabilities,
           Fetch [], SpinnerSucceed NoKnownVulnerabilities, ConsoleLog HandingOver,
           Spawn ''npm'' [''install'']]
          @ index_child True [] world_empty, None)"
    by blast
  then show ?thesis using c by (simp add: index_child_def on_close_def world_empty_def)
qed

text \<open>
  The claim as first stated has the install started for an empty manifest. The handler
  with the \<^verbatim>\<open>--scan\<close> option returns after its "no packages" line.
\<close>

theorem empty_manifest_skips_install:
  "extractPkgNames (manifest world_empty) = []
   \<and> install_action [] False world_empty
       = ([SpinnerStart Preparing, SpinnerText ReadingPackageJson,
           SpinnerFail NoPackagesFound], None)
   \<and> filter is_spawn (fst (install_action [] False world_empty)) = []"
  by (simp add: install_action_def world_empty_def empty_manifest_def extractPkgNames_def
      spread_def Object_entries_def)

text \<open>
  C8 (amended). Neither \<^verbatim>\<open>vulnsCheck\<close> nor the report compares the length of the results
  array with the candidate list. An answer with a results array is never reported as an
  oracle failure; result \<open>i\<close> is paired with candidate \<open>i\<close>; an answer without flagged
  results gives the clean report whatever its length; and when the results are fewer than
  the candidates, the candidates beyond them are not looked at.
\<close>

theorem no_length_check:
  assumes R: "own_prop vr ''results'' = Some (JArr R)"
  shows "SpinnerFail ApiFailure \<notin> set (fst (processVulnerabilityReport vr C s ch ok))
       \<and> foundVulns R C = map (\<lambda>i. attach C (i, R ! i)) (flagged_positions R)
       \<and> (flagged_positions R = [] \<longrightarrow>
            processVulnerabilityReport vr C s ch ok
              = ([SpinnerSucceed NoKnownVulnerabilities], Inr True))
       \<and> (length R \<le> length C \<longrightarrow> foundVulns R C = foundVulns R (take (length R) C))
       \<and> (response_ok status \<longrightarrow> snd (vulnsCheck C (Response status (Some vr))) = vr)"
proof -
  have a: "SpinnerFail ApiFailure \<notin> set (fst (processVulnerabilityReport vr C s ch ok))"
    by (rule report_no_api_failure[OF R])
  have b: "foundVulns R C = map (\<lambda>i. attach C (i, R ! i)) (flagged_positions R)"
    by (rule foundVulns_positions)
  have c: "flagged_positions R = [] \<longrightarrow>
            processVulnerabilityReport vr C s ch ok
              = ([SpinnerSucceed NoKnownVulnerabilities], Inr True)"
    using pvr_clean[OF R, of C s ch ok] foundVulns_empty[of R C] by blast
  have d: "length R \<le> length C \<longrightarrow> foundVulns R C = foundVulns R (take (length R) C)"
    using foundVulns_take by blast
  have e: "response_ok status \<longrightarrow> snd (vulnsCheck C (Response status (Some vr))) = vr"
    by (simp add: vulnsCheck_def)
  from a b c d e show ?thesis by blast
qed

theorem no_length_check_witness:
  "own_prop clean_body ''results'' = Some (JArr [JObj []])
   \<and> SpinnerFail ApiFailure \<notin> set (fst (processVulnerabilityReport clean_body
        [\<lparr>name = ''left-pad'', version = ''^1.3.0''\<rparr>, \<lparr>name = ''chalk'', version = ''5.3.0''\<rparr>]
        False ''abort'' True))"
proof -
  have h: "own_prop clean_body ''results'' = Some (JArr [JObj []])"
    by (simp add: clean_body_def)
  from h no_length_check[OF h] show ?thesis by blast
qed

text \<open>
  The claim as first stated has a length mismatch treated as an oracle failure. One
  unflagged result for two candidates gives the clean report.
\<close>

theorem short_results_reported_clean:
  "processVulnerabilityReport clean_body
     [\<lparr>name = ''left-pad'', version = ''^1.3.0''\<rparr>, \<lparr>name = ''chalk'', version = ''5.3.0''\<rparr>]
     False ''abort'' True
     = ([SpinnerSucceed NoKnownVulnerabilities], Inr True)
   \<and> snd (vulnsCheck
       [\<lparr>name = ''left-pad'', version = ''^1.3.0''\<rparr>, \<lparr>name = ''chalk'', version = ''5.3.0''\<rparr>]
       (Response 200 (Some clean_body))) = clean_body
   \<and> length (results_of clean_body) = 1"
  by (simp add: processVulnerabilityReport_def clean_body_def foundVulns_def attach_def
      enumerate_eq_zip vulnsCheck_def response_ok_def results_of_def)

text \<open>
  C9 (amended). For every candidate the version sent to the oracle is the input version
  with its first \<^verbatim>\<open>^\<close> removed and then its first \<^verbatim>\<open>~\<close> removed, wherever they stand. A
  version without either character is sent unchanged; a version with one leading
  qualifier and no other has exactly that qualifier stripped; a \<^verbatim>\<open>^\<close> or \<^verbatim>\<open>~\<close> that is
  the first of its kind is removed also in a non-leading position.
\<close>

theorem version_sent:
  "sent_versions C net
     = map (\<lambda>p. replace_first CHR ''~'' (replace_first CHR ''^'' (version p))) C
   \<and> (CHR ''^'' \<notin> set v \<and> CHR ''~'' \<notin> set v
        \<longrightarrow> sent_versions [\<lparr>name = n, version = v\<rparr>] net = [v])
   \<and> ((c = CHR ''^'' \<or> c = CHR ''~'') \<and> CHR ''^'' \<notin> set v \<and> CHR ''~'' \<notin> set v
        \<longrightarrow> sent_versions [\<lparr>name = n, version = c # v\<rparr>] net = [v])
   \<and> (CHR ''^'' \<notin> set a \<and> CHR ''~'' \<notin> set a \<and> CHR ''~'' \<notin> set b
        \<longrightarrow> sent_versions [\<lparr>name = n, version = a @ CHR ''^'' # b\<rparr>] net = [a @ b])
   \<and> (CHR ''~'' \<notin> set a \<and> CHR ''^'' \<notin> set a \<and> CHR ''^'' \<notin> set b
        \<longrightarrow> sent_versions [\<lparr>name = n, version = a @ CHR ''~'' # b\<rparr>] net = [a @ b])"
proof -
  have sent: "\<And>C. sent_versions C net
     = map (\<lambda>p. replace_first CHR ''~'' (replace_first CHR ''^'' (version p))) C"
    by (simp add: sent_versions_def vulnsCheck_def comp_def)
  have plain: "CHR ''^'' \<notin> set v \<and> CHR ''~'' \<notin> set v
        \<longrightarrow> sent_versions [\<lparr>name = n, version = v\<rparr>] net = [v]"
    by (simp add: sent replace_first_absent)
  have leading: "(c = CHR ''^'' \<or> c = CHR ''~'') \<and> CHR ''^'' \<notin> set v \<and> CHR ''~'' \<notin> set v
        \<longrightarrow> sent_versions [\<lparr>name = n, version = c # v\<rparr>] net = [v]"
    by (auto simp: sent replace_first_absent)
  have caret: "CHR ''^'' \<notin> set a \<and> CHR ''~'' \<notin> set a \<and> CHR ''~'' \<notin> set b
        \<longrightarrow> sent_versions [\<lparr>name = n, version = a @ CHR ''^'' # b\<rparr>] net = [a @ b]"
    by (simp add: sent replace_first_split replace_first_absent)
  have tilde: "CHR ''~'' \<notin> set a \<and> CHR ''^'' \<notin> set a \<and> CHR ''^'' \<notin> set b
        \<longrightarrow> sent_versions [\<lparr>name = n, version = a @ CHR ''~'' # b\<rparr>] net = [a @ b]"
    by (simp add: sent replace_first_split replace_first_absent)
  from sent[of C] plain leading caret tilde show ?thesis by blast
qed

theorem version_sent_witness:
  "sent_versions [\<lparr>name = ''left-pad'', version = ''^1.3.0''\<rparr>] NetworkFailure = [''1.3.0'']"
proof -
  have "(CHR ''^'' = CHR ''^'' \<or> CHR ''^'' = CHR ''~'')
        \<and> CHR ''^'' \<notin> set ''1.3.0'' \<and> CHR ''~'' \<notin> set ''1.3.0''" by simp
  with version_sent[of _ NetworkFailure "''1.3.0''" "''left-pad''" "CHR ''^''"]
  show ?thesis by blast
qed

text \<open>
  The claim as first stated has a \<^verbatim>\<open>^\<close> in a non-leading position preserved. For the
  range \<^verbatim>\<open>1.x || ^2.0.0\<close> the version sent is \<^verbatim>\<open>1.x || 2.0.0\<close>.
\<close>

theorem inner_caret_removed:
  "sent_versions [\<lparr>name = ''left-pad'', version = ''1.x || ^2.0.0''\<rparr>] NetworkFailure
   = [''1.x || 2.0.0'']"
  by (simp add: sent_versions_def vulnsCheck_def)

end
